theory Spec2Isabelle
  imports Complex_Main
begin

section \<open>Calendar dates of the host platform\<close>

text \<open>
  The scheduler of \<^verbatim>\<open>src/services/scheduler.ts\<close> computes with the platform's
  \<^verbatim>\<open>Date\<close> objects. A \<^verbatim>\<open>Date\<close> is its time value: milliseconds since
  1970-01-01T00:00:00Z. The calendar functions below follow the ECMAScript definitions
  (\<^verbatim>\<open>Day\<close>, \<^verbatim>\<open>DayFromYear\<close>, \<^verbatim>\<open>YearFromTime\<close>, \<^verbatim>\<open>MonthFromTime\<close>,
  \<^verbatim>\<open>DateFromTime\<close>, \<^verbatim>\<open>MakeDay\<close>, \<^verbatim>\<open>MakeDate\<close>), on which \<^verbatim>\<open>getMonth\<close>,
  \<^verbatim>\<open>setMonth\<close>, \<^verbatim>\<open>getDate\<close>, \<^verbatim>\<open>setDate\<close> and \<^verbatim>\<open>getFullYear\<close> are built.

  Modelling assumptions, which hold for every theorem of this theory:
  \<^item> the local time zone is UTC, so local time and time value coincide and there is no
    daylight saving shift;
  \<^item> every \<^verbatim>\<open>Date\<close> is valid: the time value is an integer, never \<^verbatim>\<open>NaN\<close>, and
    the range limit of time values (8.64e15 ms in absolute value) is not modelled;
  \<^item> a \<^verbatim>\<open>number\<close> is a finite rational: no \<^verbatim>\<open>NaN\<close>, no infinity and no
    floating-point rounding. Comparisons against the thresholds of the scheduler are exact
    in double precision too. The sums \<^verbatim>\<open>getMonth() + months\<close> and
    \<^verbatim>\<open>getMonth() - months\<close> of \<open>addMonths\<close> and \<open>subMonths\<close> are exact here, and in
    double precision whenever the exact sum is a double, as it is for every whole number of
    months of a realistic size. For other month counts the source may round the sum across
    an integer where the exact sum does not reach it. The theorems about every
    configuration do not depend on which of the two happens: they state one value of the
    engine in terms of another, or use the sum only through a bound that rounding keeps
    (\<open>subMonths_le\<close>).
\<close>

type_synonym Date = int

definition msPerDay :: int where
  "msPerDay = 86400000"

definition Day :: "int \<Rightarrow> int" where
  "Day t = t div msPerDay"

definition TimeWithinDay :: "int \<Rightarrow> int" where
  "TimeWithinDay t = t mod msPerDay"

definition DaysInYear :: "int \<Rightarrow> int" where
  "DaysInYear y =
     (if y mod 4 \<noteq> 0 then 365
      else if y mod 100 \<noteq> 0 then 366
      else if y mod 400 \<noteq> 0 then 365
      else 366)"

definition DayFromYear :: "int \<Rightarrow> int" where
  "DayFromYear y =
     365 * (y - 1970) + (y - 1969) div 4 - (y - 1901) div 100 + (y - 1601) div 400"

text \<open>
  ECMAScript specifies \<^verbatim>\<open>YearFromTime(t)\<close> as the largest year whose first day is not
  after \<open>t\<close>. The executable version starts from the estimate \<open>day / 365.2425\<close>, which is
  off by at most one year; \<open>YearFromDay_bounds\<close> and \<open>YearFromDay_unique\<close> below show that
  it is the year of the specification.
\<close>

definition YearFromDay :: "int \<Rightarrow> int" where
  "YearFromDay n =
     (let y = 1970 + (400 * n) div 146097 in
      if DayFromYear (y + 1) \<le> n then y + 1
      else if DayFromYear y \<le> n then y
      else y - 1)"

definition YearFromTime :: "int \<Rightarrow> int" where
  "YearFromTime t = YearFromDay (Day t)"

definition InLeapYear :: "int \<Rightarrow> int" where
  "InLeapYear t = (if DaysInYear (YearFromTime t) = 366 then 1 else 0)"

definition DayWithinYear :: "int \<Rightarrow> int" where
  "DayWithinYear t = Day t - DayFromYear (YearFromTime t)"

definition MonthFromTime :: "int \<Rightarrow> int" where
  "MonthFromTime t =
     (let d = DayWithinYear t; l = InLeapYear t in
      if d < 31 then 0
      else if d < 59 + l then 1
      else if d < 90 + l then 2
      else if d < 120 + l then 3
      else if d < 151 + l then 4
      else if d < 181 + l then 5
      else if d < 212 + l then 6
      else if d < 243 + l then 7
      else if d < 273 + l then 8
      else if d < 304 + l then 9
      else if d < 334 + l then 10
      else 11)"

definition DateFromTime :: "int \<Rightarrow> int" where
  "DateFromTime t =
     (let d = DayWithinYear t; l = InLeapYear t; m = MonthFromTime t in
      if m = 0 then d + 1
      else if m = 1 then d - 30
      else if m = 2 then d - 58 - l
      else if m = 3 then d - 89 - l
      else if m = 4 then d - 119 - l
      else if m = 5 then d - 150 - l
      else if m = 6 then d - 180 - l
      else if m = 7 then d - 211 - l
      else if m = 8 then d - 242 - l
      else if m = 9 then d - 272 - l
      else if m = 10 then d - 303 - l
      else d - 333 - l)"

text \<open>
  Number of days of year \<open>ym\<close> that precede its month \<open>mn\<close> (0-based): the day within
  the year of the first of that month.
\<close>

definition DaysBeforeMonth :: "int \<Rightarrow> int \<Rightarrow> int" where
  "DaysBeforeMonth ym mn =
     (let l = (if DaysInYear ym = 366 then 1 else 0) in
      if mn = 0 then 0
      else if mn = 1 then 31
      else if mn = 2 then 59 + l
      else if mn = 3 then 90 + l
      else if mn = 4 then 120 + l
      else if mn = 5 then 151 + l
      else if mn = 6 then 181 + l
      else if mn = 7 then 212 + l
      else if mn = 8 then 243 + l
      else if mn = 9 then 273 + l
      else if mn = 10 then 304 + l
      else 334 + l)"

text \<open>
  \<^verbatim>\<open>MakeDay(year, month, date)\<close>: the month may lie outside \<open>0..11\<close> and the date outside
  the month; both roll over into the neighbouring years and months.
\<close>

definition MakeDay :: "int \<Rightarrow> int \<Rightarrow> int \<Rightarrow> int" where
  "MakeDay year month dt =
     (let ym = year + month div 12; mn = month mod 12 in
      DayFromYear ym + DaysBeforeMonth ym mn + dt - 1)"

definition MakeDate :: "int \<Rightarrow> int \<Rightarrow> int" where
  "MakeDate day time = day * msPerDay + time"

text \<open>Truncation towards zero, applied by \<^verbatim>\<open>MakeDay\<close> to its arguments.\<close>

definition ToIntegerOrInfinity :: "rat \<Rightarrow> int" where
  "ToIntegerOrInfinity x = (if 0 \<le> x then \<lfloor>x\<rfloor> else \<lceil>x\<rceil>)"

definition getFullYear :: "Date \<Rightarrow> int" where
  "getFullYear d = YearFromTime d"

definition getMonth :: "Date \<Rightarrow> int" where
  "getMonth d = MonthFromTime d"

definition getDate :: "Date \<Rightarrow> int" where
  "getDate d = DateFromTime d"

definition setMonth :: "Date \<Rightarrow> rat \<Rightarrow> Date" where
  "setMonth d month =
     MakeDate (MakeDay (YearFromTime d) (ToIntegerOrInfinity month) (DateFromTime d))
              (TimeWithinDay d)"

text \<open>The scheduler only passes integers to \<^verbatim>\<open>setDate\<close>.\<close>

definition setDate :: "Date \<Rightarrow> int \<Rightarrow> Date" where
  "setDate d dt =
     MakeDate (MakeDay (YearFromTime d) (MonthFromTime d) dt) (TimeWithinDay d)"

text \<open>
  The date \<open>y\<close>-\<open>m\<close>-\<open>d\<close> (month \<open>1..12\<close>) at midnight UTC: what \<^verbatim>\<open>new Date("YYYY-MM-DD")\<close>
  yields for a date string.
\<close>

definition utcDate :: "int \<Rightarrow> int \<Rightarrow> int \<Rightarrow> Date" where
  "utcDate y m d = MakeDate (MakeDay y (m - 1) d) 0"

text \<open>\<^verbatim>\<open>Math.round\<close>: the nearest integer, halves rounded up.\<close>

definition MathRound :: "rat \<Rightarrow> int" where
  "MathRound x = \<lfloor>x + 1 / 2\<rfloor>"

section \<open>Date utilities of the scheduler\<close>

text \<open>
  \<open>addMonths\<close> and \<open>subMonths\<close> hand the sum \<^verbatim>\<open>getMonth() + months\<close>, respectively
  \<^verbatim>\<open>getMonth() - months\<close>, to \<^verbatim>\<open>setMonth\<close>, which truncates it. The sum is exact here;
  the source rounds it to a double (see the modelling assumptions above).
\<close>

definition addMonths :: "Date \<Rightarrow> rat \<Rightarrow> Date" where
  "addMonths date months = setMonth date (of_int (getMonth date) + months)"

definition diffMonths :: "Date \<Rightarrow> Date \<Rightarrow> int" where
  "diffMonths d1 d2 =
     (let months = (getFullYear d2 - getFullYear d1) * 12;
          months = months - getMonth d1;
          months = months + getMonth d2
      in if months \<le> 0 then 0 else months)"

definition subMonths :: "Date \<Rightarrow> rat \<Rightarrow> Date" where
  "subMonths date months = setMonth date (of_int (getMonth date) - months)"

definition isRestrictedMonth :: "Date \<Rightarrow> bool" where
  "isRestrictedMonth date = (let m = getMonth date in m = 0 \<or> m = 3 \<or> m = 7)"

section \<open>Data model\<close>

datatype ProjectTypology = ROOF_NEW | ROOF_EXISTING | SHADE | GROUND

datatype InjectionType = TOTAL_INJECTION | AUTOCONSUMPTION

datatype InvestmentModel = OWN_INVESTMENT | CLIENT_INVESTMENT

text \<open>An absent override (\<^verbatim>\<open>undefined\<close>) is \<open>None\<close>.\<close>

record PhaseOverride =
  negotiationDuration :: "rat option"
  urbanismDuration :: "rat option"
  creDuration :: "rat option"
  leaseDuration :: "rat option"
  connectionDuration :: "rat option"
  constructionDuration :: "rat option"

text \<open>
  The skip flags are only tested for truthiness, so an absent flag is \<open>False\<close>. The fields
  carry the prefix \<open>skip\<close> because the result record has fields of the same names.
\<close>

record SkippedPhases =
  skipNegotiation :: bool
  skipUrbanism :: bool
  skipAoCre :: bool
  skipLeaseManagement :: bool
  skipConnection :: bool
  skipConstruction :: bool

text \<open>
  \<open>signatureDate\<close> is the parsed signature date, \<^verbatim>\<open>new Date(config.signatureDate)\<close>; the
  parsing of the string is the platform's.
\<close>

record ProjectConfig =
  id' :: string
  name' :: string
  signatureDate :: Date
  powerKWc :: rat
  typology :: ProjectTypology
  injectionType :: InjectionType
  investmentModel :: InvestmentModel
  isSubcontracted :: bool
  overrides :: PhaseOverride
  skippedPhases :: SkippedPhases

record DateRange =
  start :: Date
  end' :: Date
  durationMonths :: rat

record Milestones =
  loi :: "Date option"
  signature :: Date
  urbanismOk :: "Date option"
  laureate :: "Date option"
  leaseSigned :: "Date option"
  constructionCompletion :: Date
  cod :: Date

record PhaseResult =
  negotiation :: "DateRange option"
  urbanism :: "DateRange option"
  aoCre :: "DateRange option"
  leaseManagement :: "DateRange option"
  connection :: DateRange
  construction :: DateRange
  operation :: DateRange
  milestones :: Milestones
  totalDurationMonths :: int

section \<open>The timeline engine\<close>

text \<open>
  \<^verbatim>\<open>calculateProjectTimeline\<close> is one function body of six numbered stages. Each local
  variable of the body is a function of the configuration here, in the order of the source;
  the two variables that the construction stage reassigns (\<^verbatim>\<open>connectionStart\<close>,
  \<^verbatim>\<open>connectionEnd\<close>) are returned by \<open>constructionStage\<close> together with the
  construction range.
\<close>

definition T0 :: "ProjectConfig \<Rightarrow> Date" where
  "T0 config = signatureDate config"

text \<open>Stage 1, negotiation: ends at \<open>T0\<close>, starts \<open>round(duration * 30.44)\<close> days earlier.\<close>

definition negotiationRange :: "ProjectConfig \<Rightarrow> DateRange option" where
  "negotiationRange config =
     (if \<not> skipNegotiation (skippedPhases config) then
        (let negDuration = (case negotiationDuration (overrides config) of
                              Some v \<Rightarrow> v | None \<Rightarrow> 1 / 2);
             days = MathRound (negDuration * (3044 / 100));
             negotiationStart = setDate (T0 config) (getDate (T0 config) - days)
         in Some \<lparr>start = negotiationStart, end' = T0 config, durationMonths = negDuration\<rparr>)
      else None)"

text \<open>Stage 2, urbanism.\<close>

definition urbanDuration :: "ProjectConfig \<Rightarrow> rat" where
  "urbanDuration config =
     (case urbanismDuration (overrides config) of
        Some v \<Rightarrow> v
      | None \<Rightarrow> (if powerKWc config > 3000 \<or> typology config = ROOF_NEW then 6 else 4))"

definition urbanEnd :: "ProjectConfig \<Rightarrow> Date" where
  "urbanEnd config =
     (if \<not> skipUrbanism (skippedPhases config)
      then addMonths (T0 config) (urbanDuration config)
      else T0 config)"

definition urbanRange :: "ProjectConfig \<Rightarrow> DateRange option" where
  "urbanRange config =
     (if \<not> skipUrbanism (skippedPhases config)
      then Some \<lparr>start = T0 config, end' = urbanEnd config,
                 durationMonths = urbanDuration config\<rparr>
      else None)"

text \<open>Stage 3, the two parallel security phases and the lock.\<close>

definition creRange :: "ProjectConfig \<Rightarrow> DateRange option" where
  "creRange config =
     (if \<not> skipAoCre (skippedPhases config) \<and> powerKWc config > 100
         \<and> injectionType config = TOTAL_INJECTION then
        (let dur = (case creDuration (overrides config) of Some v \<Rightarrow> v | None \<Rightarrow> 4)
         in Some \<lparr>start = urbanEnd config, end' = addMonths (urbanEnd config) dur,
                  durationMonths = dur\<rparr>)
      else None)"

definition leaseRange :: "ProjectConfig \<Rightarrow> DateRange option" where
  "leaseRange config =
     (if \<not> skipLeaseManagement (skippedPhases config)
         \<and> investmentModel config = OWN_INVESTMENT then
        (let dur = (case leaseDuration (overrides config) of Some v \<Rightarrow> v | None \<Rightarrow> 4)
         in Some \<lparr>start = urbanEnd config, end' = addMonths (urbanEnd config) dur,
                  durationMonths = dur\<rparr>)
      else None)"

definition creEndDate :: "ProjectConfig \<Rightarrow> Date" where
  "creEndDate config =
     (case creRange config of Some r \<Rightarrow> end' r | None \<Rightarrow> urbanEnd config)"

definition leaseEndDate :: "ProjectConfig \<Rightarrow> Date" where
  "leaseEndDate config =
     (case leaseRange config of Some r \<Rightarrow> end' r | None \<Rightarrow> urbanEnd config)"

definition securityLockDate :: "ProjectConfig \<Rightarrow> Date" where
  "securityLockDate config = max (creEndDate config) (leaseEndDate config)"

text \<open>
  Stage 4, connection. \<open>connectionDurationUsed\<close> is the local variable
  \<^verbatim>\<open>connectionDuration\<close> after the skip test; \<open>initialConnectionEnd\<close> is
  \<^verbatim>\<open>connectionEnd\<close> before the construction stage, whose start is the lock.
\<close>

definition connectionDurationUsed :: "ProjectConfig \<Rightarrow> rat" where
  "connectionDurationUsed config =
     (let P = powerKWc config;
          connectionDuration0 =
            (case connectionDuration (overrides config) of
               Some v \<Rightarrow> v
             | None \<Rightarrow>
                 (if injectionType config = AUTOCONSUMPTION then 5
                  else if P \<le> 36 then 6
                  else if P \<le> 250 then 9
                  else if P \<le> 1000 then 12
                  else 18))
      in if skipConnection (skippedPhases config) then 0 else connectionDuration0)"

definition initialConnectionEnd :: "ProjectConfig \<Rightarrow> Date" where
  "initialConnectionEnd config =
     addMonths (securityLockDate config) (connectionDurationUsed config)"

text \<open>Stage 5, construction.\<close>

definition workMonthsNeeded :: "ProjectConfig \<Rightarrow> rat" where
  "workMonthsNeeded config =
     (let P = powerKWc config;
          w = 3;
          w = (if P > 500 then 4 else w);
          w = (if P > 2000 then 6 else w)
      in case constructionDuration (overrides config) of Some v \<Rightarrow> v | None \<Rightarrow> w)"

definition targetConstructionEnd :: "ProjectConfig \<Rightarrow> Date" where
  "targetConstructionEnd config =
     setDate (initialConnectionEnd config) (getDate (initialConnectionEnd config) - 15)"

text \<open>
  The two \<^verbatim>\<open>while\<close> loops. The loop state is (cursor, valid months, protection); the
  functions return the state in which the loop leaves. They terminate because
  \<open>protection\<close> grows towards 36.
\<close>

function backwardWalk :: "rat \<Rightarrow> Date \<times> int \<times> nat \<Rightarrow> Date \<times> int \<times> nat" where
  "backwardWalk w (cursor, validMonthsFound, protection) =
     (if of_int validMonthsFound < w \<and> protection < 36 then
        (let prevMonth = subMonths cursor 1
         in backwardWalk w
              (prevMonth,
               (if \<not> isRestrictedMonth prevMonth then validMonthsFound + 1
                else validMonthsFound),
               protection + 1))
      else (cursor, validMonthsFound, protection))"
  by pat_completeness auto
termination
  by (relation "measure (\<lambda>(w, c, v, p). 36 - p)") auto

function forwardWalk :: "rat \<Rightarrow> Date \<times> int \<times> nat \<Rightarrow> Date \<times> int \<times> nat" where
  "forwardWalk w (cursor, validMonthsAdded, protection) =
     (if of_int validMonthsAdded < w \<and> protection < 36 then
        forwardWalk w
          (addMonths cursor 1,
           (if \<not> isRestrictedMonth cursor then validMonthsAdded + 1 else validMonthsAdded),
           protection + 1)
      else (cursor, validMonthsAdded, protection))"
  by pat_completeness auto
termination
  by (relation "measure (\<lambda>(w, c, v, p). 36 - p)") auto

text \<open>\<^verbatim>\<open>constructionStartDate\<close> before the constraint check.\<close>

definition initialConstructionStart :: "ProjectConfig \<Rightarrow> Date" where
  "initialConstructionStart config =
     (if isSubcontracted config
      then subMonths (targetConstructionEnd config) (workMonthsNeeded config)
      else fst (backwardWalk (workMonthsNeeded config) (targetConstructionEnd config, 0, 0)))"

text \<open>
  \<^verbatim>\<open>actualConstructionEnd\<close> and \<^verbatim>\<open>newConnectionEnd\<close> of the constraint check, which
  restarts from the lock; both branches of the source compute the second from the first in
  the same way.
\<close>

definition actualConstructionEnd :: "ProjectConfig \<Rightarrow> Date" where
  "actualConstructionEnd config =
     (if isSubcontracted config
      then addMonths (securityLockDate config) (workMonthsNeeded config)
      else fst (forwardWalk (workMonthsNeeded config) (securityLockDate config, 0, 0)))"

definition newConnectionEnd :: "ProjectConfig \<Rightarrow> Date" where
  "newConnectionEnd config =
     setDate (actualConstructionEnd config) (getDate (actualConstructionEnd config) + 15)"

text \<open>The result is (constructionRange, connectionStart, connectionEnd).\<close>

definition constructionStage :: "ProjectConfig \<Rightarrow> DateRange \<times> Date \<times> Date" where
  "constructionStage config =
     (let connectionStart = securityLockDate config;
          connectionEnd = initialConnectionEnd config
      in if skipConstruction (skippedPhases config) then
           (\<lparr>start = connectionStart, end' = connectionStart, durationMonths = 0\<rparr>,
            connectionStart, connectionEnd)
         else
           (let (constructionStartDate, connectionStart, connectionEnd) =
                  (if initialConstructionStart config < securityLockDate config then
                     (if \<not> skipConnection (skippedPhases config) then
                        (securityLockDate config,
                         subMonths (newConnectionEnd config) (connectionDurationUsed config),
                         newConnectionEnd config)
                      else (securityLockDate config, connectionStart, connectionEnd))
                   else (initialConstructionStart config, connectionStart, connectionEnd))
            in (\<lparr>start = constructionStartDate,
                  end' = connectionEnd - 15 * 24 * 60 * 60 * 1000,
                  durationMonths = of_int (diffMonths constructionStartDate connectionEnd)\<rparr>,
                connectionStart, connectionEnd)))"

text \<open>Stage 6 and the assembly of the result.\<close>

definition calculateProjectTimeline :: "ProjectConfig \<Rightarrow> PhaseResult" where
  "calculateProjectTimeline config =
     (let (constructionRange, connectionStart, connectionEnd) = constructionStage config;
          codDate = addMonths connectionEnd 1;
          finalNegotiationStart =
            (case negotiationRange config of Some r \<Rightarrow> start r | None \<Rightarrow> T0 config)
      in \<lparr>negotiation = negotiationRange config,
          urbanism = urbanRange config,
          aoCre = creRange config,
          leaseManagement = leaseRange config,
          connection = \<lparr>start = connectionStart, end' = connectionEnd,
                         durationMonths = connectionDurationUsed config\<rparr>,
          construction = constructionRange,
          operation = \<lparr>start = codDate, end' = addMonths codDate 24, durationMonths = 24\<rparr>,
          milestones =
            \<lparr>loi = (case negotiationRange config of
                      Some r \<Rightarrow> Some (T0 config) | None \<Rightarrow> None),
             signature = T0 config,
             urbanismOk = (case urbanRange config of
                             Some r \<Rightarrow> Some (urbanEnd config) | None \<Rightarrow> None),
             laureate = map_option end' (creRange config),
             leaseSigned = map_option end' (leaseRange config),
             constructionCompletion = end' constructionRange,
             cod = codDate\<rparr>,
          totalDurationMonths = diffMonths finalNegotiationStart codDate\<rparr>)"

section \<open>The specification's wording of the engine's rules\<close>

text \<open>
  The seasonality walks as the specification describes them: a cursor that moves one month
  per step, a counter of the non-restricted months met, and the number of steps taken,
  which is the length of the longest run of steps \<open>0, 1, \<dots>\<close> below 36 before which the
  counter is still short of the months needed.
\<close>

primrec backwardCursor :: "Date \<Rightarrow> nat \<Rightarrow> Date" where
  "backwardCursor target 0 = target"
| "backwardCursor target (Suc k) = subMonths (backwardCursor target k) 1"

definition backwardCount :: "Date \<Rightarrow> nat \<Rightarrow> int" where
  "backwardCount target k =
     int (length (filter (\<lambda>j. \<not> isRestrictedMonth (backwardCursor target (Suc j))) [0..<k]))"

definition backwardSteps :: "rat \<Rightarrow> Date \<Rightarrow> nat" where
  "backwardSteps w target =
     length (takeWhile (\<lambda>k. of_int (backwardCount target k) < w) [0..<36])"

definition specBackwardStart :: "rat \<Rightarrow> Date \<Rightarrow> Date" where
  "specBackwardStart w target = backwardCursor target (backwardSteps w target)"

primrec forwardCursor :: "Date \<Rightarrow> nat \<Rightarrow> Date" where
  "forwardCursor start0 0 = start0"
| "forwardCursor start0 (Suc k) = addMonths (forwardCursor start0 k) 1"

definition forwardCount :: "Date \<Rightarrow> nat \<Rightarrow> int" where
  "forwardCount start0 k =
     int (length (filter (\<lambda>j. \<not> isRestrictedMonth (forwardCursor start0 j)) [0..<k]))"

definition forwardSteps :: "rat \<Rightarrow> Date \<Rightarrow> nat" where
  "forwardSteps w start0 =
     length (takeWhile (\<lambda>k. of_int (forwardCount start0 k) < w) [0..<36])"

definition specForwardEnd :: "rat \<Rightarrow> Date \<Rightarrow> Date" where
  "specForwardEnd w start0 = forwardCursor start0 (forwardSteps w start0)"

text \<open>The connection duration in the order in which the specification gives its rules.\<close>

definition specConnectionDuration :: "ProjectConfig \<Rightarrow> rat" where
  "specConnectionDuration config =
     (if skipConnection (skippedPhases config) then 0
      else if connectionDuration (overrides config) \<noteq> None
        then the (connectionDuration (overrides config))
      else if injectionType config = AUTOCONSUMPTION then 5
      else if powerKWc config \<le> 36 then 6
      else if powerKWc config \<le> 250 then 9
      else if powerKWc config \<le> 1000 then 12
      else 18)"

text \<open>The configuration with the construction duration overridden by \<open>w\<close>.\<close>

definition withConstructionDuration :: "rat \<Rightarrow> ProjectConfig \<Rightarrow> ProjectConfig" where
  "withConstructionDuration w config =
     config\<lparr>overrides := (overrides config)\<lparr>constructionDuration := Some w\<rparr>\<rparr>"

text \<open>
  The first day of a month, counted in months since year 0: \<open>k = 12 * year + month\<close>.
  \<^verbatim>\<open>MakeDay\<close> depends on year and month only through this count.
\<close>

definition firstDayOfMonth :: "int \<Rightarrow> int" where
  "firstDayOfMonth k = MakeDay 0 k 1"

section \<open>Concrete configurations\<close>

definition noOverrides :: PhaseOverride where
  "noOverrides =
     \<lparr>negotiationDuration = None, urbanismDuration = None, creDuration = None,
      leaseDuration = None, connectionDuration = None, constructionDuration = None\<rparr>"

definition noSkips :: SkippedPhases where
  "noSkips =
     \<lparr>skipNegotiation = False, skipUrbanism = False, skipAoCre = False,
      skipLeaseManagement = False, skipConnection = False, skipConstruction = False\<rparr>"

text \<open>
  The scenario of the specification: signed 2025-03-01, 200 kWc, existing roof, total
  injection, own investment, self-executed, nothing skipped or overridden.
\<close>

definition referenceProject :: ProjectConfig where
  "referenceProject =
     \<lparr>id' = ''prj_1'', name' = ''reference'', signatureDate = utcDate 2025 3 1,
      powerKWc = 200, typology = ROOF_EXISTING, injectionType = TOTAL_INJECTION,
      investmentModel = OWN_INVESTMENT, isSubcontracted = False,
      overrides = noOverrides, skippedPhases = noSkips\<rparr>"

text \<open>
  A self-consumption project of 600 kWc signed 2025-05-20, financed by the client,
  self-executed, nothing skipped or overridden.
\<close>

definition selfConsumptionProject :: ProjectConfig where
  "selfConsumptionProject =
     \<lparr>id' = ''prj_2'', name' = ''self-consumption'', signatureDate = utcDate 2025 5 20,
      powerKWc = 600, typology = ROOF_EXISTING, injectionType = AUTOCONSUMPTION,
      investmentModel = CLIENT_INVESTMENT, isSubcontracted = False,
      overrides = noOverrides, skippedPhases = noSkips\<rparr>"

text \<open>The reference project at 50 kWc, below the tender threshold.\<close>

definition smallProject :: ProjectConfig where
  "smallProject = referenceProject\<lparr>powerKWc := 50\<rparr>"



section \<open>Facts about the calendar\<close>

subsection \<open>Integer division\<close>

lemma div_succ_int:
  fixes a k :: int
  assumes "1 < k"
  shows "(a + 1) div k = a div k + (if (a + 1) mod k = 0 then 1 else 0)"
proof -
  have r: "0 \<le> a mod k" "a mod k < k" using assms by simp_all
  have e: "a + 1 = k * (a div k) + (a mod k + 1)" by simp
  show ?thesis
  proof (cases "a mod k + 1 = k")
    case True
    then have "a + 1 = k * (a div k + 1)" using e by (simp add: algebra_simps)
    then have "(a + 1) div k = a div k + 1" "(a + 1) mod k = 0"
      using assms by (simp_all del: mult_div_mod_eq)
    then show ?thesis by simp
  next
    case False
    then have lt: "a mod k + 1 < k" using r by linarith
    have "(a + 1) div k = a div k"
      using e lt r assms by (metis add.commute div_mult_self2 div_pos_pos_trivial add_nonneg_nonneg zero_le_one less_irrefl add_0 mult.commute add_increasing2 not_less_iff_gr_or_eq zero_less_one)
    moreover have "(a + 1) mod k \<noteq> 0"
      using e lt r assms by (metis mod_mult_self2 mod_pos_pos_trivial add.commute add_nonneg_pos zero_less_one less_irrefl mult.commute add_increasing2 zero_le_one)
    ultimately show ?thesis by simp
  qed
qed

lemma mod_shift_mult:
  fixes y k c :: int
  shows "(y - k * c) mod k = y mod k"
  using mod_mult_self2 [of y k "- c"] by simp

lemma mod_succ_shift4: "((y::int) - 1968) mod 4 = 0 \<longleftrightarrow> y mod 4 = 0"
  using mod_shift_mult [of y 4 492] by simp
lemma mod_succ_shift100: "((y::int) - 1900) mod 100 = 0 \<longleftrightarrow> y mod 100 = 0"
  using mod_shift_mult [of y 100 19] by simp
lemma mod_succ_shift400: "((y::int) - 1600) mod 400 = 0 \<longleftrightarrow> y mod 400 = 0"
  using mod_shift_mult [of y 400 4] by simp
lemma mod_400_100: "(y::int) mod 400 = 0 \<Longrightarrow> y mod 100 = 0"
proof -
  assume "y mod 400 = 0"
  then have "400 dvd y" by (simp add: mod_eq_0_iff_dvd)
  moreover have "(100::int) dvd 400" by simp
  ultimately have "100 dvd y" by (rule dvd_trans [rotated])
  then show ?thesis by (simp add: mod_eq_0_iff_dvd)
qed
lemma mod_100_4: "(y::int) mod 100 = 0 \<Longrightarrow> y mod 4 = 0"
proof -
  assume "y mod 100 = 0"
  then have "100 dvd y" by (simp add: mod_eq_0_iff_dvd)
  moreover have "(4::int) dvd 100" by simp
  ultimately have "4 dvd y" by (rule dvd_trans [rotated])
  then show ?thesis by (simp add: mod_eq_0_iff_dvd)
qed

subsection \<open>Years\<close>

lemma DaysInYear_bounds: "365 \<le> DaysInYear y \<and> DaysInYear y \<le> 366"
  by (simp add: DaysInYear_def)

lemma DayFromYear_Suc: "DayFromYear (y + 1) = DayFromYear y + DaysInYear y"
proof -
  have a: "(y + 1 - 1969) div 4 = (y - 1969) div 4 + (if y mod 4 = 0 then 1 else 0)"
    using div_succ_int [of 4 "y - 1969"] mod_succ_shift4 [of y] by (simp add: algebra_simps)
  have b: "(y + 1 - 1901) div 100 = (y - 1901) div 100 + (if y mod 100 = 0 then 1 else 0)"
    using div_succ_int [of 100 "y - 1901"] mod_succ_shift100 [of y] by (simp add: algebra_simps)
  have c: "(y + 1 - 1601) div 400 = (y - 1601) div 400 + (if y mod 400 = 0 then 1 else 0)"
    using div_succ_int [of 400 "y - 1601"] mod_succ_shift400 [of y] by (simp add: algebra_simps)
  show ?thesis
    unfolding DayFromYear_def DaysInYear_def a b c
    using mod_400_100 [of y] mod_100_4 [of y] by auto
qed

lemma div_bounds_int:
  fixes x k :: int
  assumes "0 < k"
  shows "k * (x div k) \<le> x" and "x < k * (x div k) + k"
proof -
  have "x = k * (x div k) + x mod k" by simp
  moreover have "0 \<le> x mod k" "x mod k < k" using assms by simp_all
  ultimately show "k * (x div k) \<le> x" and "x < k * (x div k) + k" by linarith+
qed

lemma DayFromYear_estimate:
  "146097 * (y - 1970) - 146097 < 400 * DayFromYear y \<and>
   400 * DayFromYear y < 146097 * (y - 1970) + 146097"
proof -
  define a where "a = (y - 1969) div 4"
  define b where "b = (y - 1901) div 100"
  define c where "c = (y - 1601) div 400"
  have a: "4 * a \<le> y - 1969" "y - 1969 < 4 * a + 4"
    unfolding a_def by (rule div_bounds_int, simp)+
  have b: "100 * b \<le> y - 1901" "y - 1901 < 100 * b + 100"
    unfolding b_def by (rule div_bounds_int, simp)+
  have c: "400 * c \<le> y - 1601" "y - 1601 < 400 * c + 400"
    unfolding c_def by (rule div_bounds_int, simp)+
  have d: "DayFromYear y = 365 * (y - 1970) + a - b + c"
    by (simp add: DayFromYear_def a_def b_def c_def)
  show ?thesis unfolding d using a b c by (simp add: algebra_simps)
qed

lemma DayFromYear_est_lower: "DayFromYear (1970 + (400 * n) div 146097 - 1) \<le> n"
proof -
  define e where "e = (400 * n) div 146097"
  have e: "146097 * e \<le> 400 * n" "400 * n < 146097 * e + 146097"
    unfolding e_def by (rule div_bounds_int, simp)+
  define D where "D = DayFromYear (1970 + e - 1)"
  have u: "400 * D < 146097 * (1970 + e - 1 - 1970) + 146097"
    unfolding D_def using DayFromYear_estimate [of "1970 + e - 1"] by blast
  have "D \<le> n" using e u by (simp add: algebra_simps)
  then show ?thesis by (simp add: D_def e_def)
qed

lemma DayFromYear_est_upper: "n < DayFromYear (1970 + (400 * n) div 146097 + 2)"
proof -
  define e where "e = (400 * n) div 146097"
  have e: "146097 * e \<le> 400 * n" "400 * n < 146097 * e + 146097"
    unfolding e_def by (rule div_bounds_int, simp)+
  define D where "D = DayFromYear (1970 + e + 2)"
  have l: "146097 * (1970 + e + 2 - 1970) - 146097 < 400 * D"
    unfolding D_def using DayFromYear_estimate [of "1970 + e + 2"] by blast
  have "n < D" using e l by (simp add: algebra_simps)
  then show ?thesis by (simp add: D_def e_def)
qed

lemma YearFromDay_bounds:
  "DayFromYear (YearFromDay n) \<le> n \<and> n < DayFromYear (YearFromDay n + 1)"
proof -
  define y where "y = 1970 + (400 * n) div 146097"
  have lo: "DayFromYear (y - 1) \<le> n" using DayFromYear_est_lower [of n] by (simp add: y_def)
  have hi: "n < DayFromYear (y + 2)" using DayFromYear_est_upper [of n] by (simp add: y_def)
  have yd: "YearFromDay n = (if DayFromYear (y + 1) \<le> n then y + 1
      else if DayFromYear y \<le> n then y else y - 1)"
    by (simp add: YearFromDay_def y_def Let_def)
  show ?thesis
  proof (cases "DayFromYear (y + 1) \<le> n")
    case True
    then show ?thesis using hi yd by (simp add: add.assoc)
  next
    case False
    then show ?thesis using lo yd by (cases "DayFromYear y \<le> n") simp_all
  qed
qed

lemma DayFromYear_mono: "y \<le> y' \<Longrightarrow> DayFromYear y \<le> DayFromYear y'"
proof -
  assume "y \<le> y'"
  then obtain k :: nat where k: "y' = y + int k" by (metis nonneg_int_cases diff_ge_0_iff_ge add_diff_cancel_left' add.commute diff_add_cancel)
  have "DayFromYear y \<le> DayFromYear (y + int k)"
  proof (induction k)
    case 0 show ?case by simp
  next
    case (Suc k)
    have "DayFromYear (y + int (Suc k)) = DayFromYear (y + int k) + DaysInYear (y + int k)"
      using DayFromYear_Suc [of "y + int k"] by (simp add: algebra_simps)
    then show ?case using Suc DaysInYear_bounds [of "y + int k"] by linarith
  qed
  then show ?thesis using k by simp
qed

lemma YearFromDay_unique:
  assumes "DayFromYear y \<le> n" and "n < DayFromYear (y + 1)"
  shows "YearFromDay n = y"
proof (rule ccontr)
  assume ne: "YearFromDay n \<noteq> y"
  note b = YearFromDay_bounds [of n]
  show False
  proof (cases "YearFromDay n < y")
    case True
    then have "DayFromYear (YearFromDay n + 1) \<le> DayFromYear y" by (intro DayFromYear_mono) simp
    then show False using b assms by linarith
  next
    case False
    then have "y + 1 \<le> YearFromDay n" using ne by simp
    then have "DayFromYear (y + 1) \<le> DayFromYear (YearFromDay n)" by (rule DayFromYear_mono)
    then show False using b assms by linarith
  qed
qed

subsection \<open>Months and days of the month\<close>

lemma MonthFromTime_cases:
  "MonthFromTime t = 0 \<or> MonthFromTime t = 1 \<or> MonthFromTime t = 2 \<or> MonthFromTime t = 3
   \<or> MonthFromTime t = 4 \<or> MonthFromTime t = 5 \<or> MonthFromTime t = 6 \<or> MonthFromTime t = 7
   \<or> MonthFromTime t = 8 \<or> MonthFromTime t = 9 \<or> MonthFromTime t = 10 \<or> MonthFromTime t = 11"
  unfolding MonthFromTime_def Let_def by simp

lemma MonthFromTime_range: "0 \<le> MonthFromTime t \<and> MonthFromTime t < 12"
  using MonthFromTime_cases [of t] by auto

lemma DateFromTime_eq:
  "DateFromTime t =
     DayWithinYear t + 1 - DaysBeforeMonth (YearFromTime t) (MonthFromTime t)"
  using MonthFromTime_cases [of t]
  by (elim disjE) (simp_all add: DateFromTime_def DaysBeforeMonth_def InLeapYear_def Let_def)

lemma MakeDay_month_in_range:
  assumes "0 \<le> m" and "m < 12"
  shows "MakeDay y m dt = DayFromYear y + DaysBeforeMonth y m + dt - 1"
  using assms by (simp add: MakeDay_def Let_def)

lemma MakeDay_civil:
  "MakeDay (YearFromTime t) (MonthFromTime t) (DateFromTime t + k) = Day t + k"
proof -
  have "MakeDay (YearFromTime t) (MonthFromTime t) (DateFromTime t + k) =
        DayFromYear (YearFromTime t) + DaysBeforeMonth (YearFromTime t) (MonthFromTime t)
          + (DateFromTime t + k) - 1"
    using MonthFromTime_range [of t] by (intro MakeDay_month_in_range) simp_all
  also have "\<dots> = Day t + k"
    by (simp add: DateFromTime_eq DayWithinYear_def)
  finally show ?thesis .
qed

lemma MakeDate_Day: "MakeDate (Day t) (TimeWithinDay t) = t"
  by (simp add: MakeDate_def Day_def TimeWithinDay_def msPerDay_def)

lemma TimeWithinDay_range: "0 \<le> TimeWithinDay t \<and> TimeWithinDay t < msPerDay"
  by (simp add: TimeWithinDay_def msPerDay_def)

lemma Day_MakeDate: "Day (MakeDate d (TimeWithinDay t)) = d"
  using TimeWithinDay_range [of t]
  by (simp add: MakeDate_def Day_def msPerDay_def TimeWithinDay_def)

lemma TimeWithinDay_MakeDate: "TimeWithinDay (MakeDate d (TimeWithinDay t)) = TimeWithinDay t"
  by (simp add: MakeDate_def TimeWithinDay_def msPerDay_def)

lemma MakeDay_add_date: "MakeDay y m (dt + k) = MakeDay y m dt + k"
  by (simp add: MakeDay_def Let_def)

lemma MakeDay_normal: "MakeDay y m dt = MakeDay 0 (12 * y + m) dt"
proof -
  have "(12 * y + m) div 12 = y + m div 12" by simp
  moreover have "(12 * y + m) mod 12 = m mod 12" by simp
  ultimately show ?thesis by (simp add: MakeDay_def Let_def)
qed

subsection \<open>The first day of a month grows with the month count\<close>

lemma month_index_cases:
  fixes a :: int
  assumes "0 \<le> a" and "a < 12"
  shows "a = 0 \<or> a = 1 \<or> a = 2 \<or> a = 3 \<or> a = 4 \<or> a = 5 \<or> a = 6 \<or> a = 7
         \<or> a = 8 \<or> a = 9 \<or> a = 10 \<or> a = 11"
  using assms by arith

lemma DaysBeforeMonth_bounds:
  assumes "0 \<le> a" and "a < 12"
  shows "0 \<le> DaysBeforeMonth y a \<and> DaysBeforeMonth y a \<le> 335"
  using month_index_cases [OF assms]
  by (elim disjE) (simp_all add: DaysBeforeMonth_def Let_def)

lemma DaysBeforeMonth_step:
  assumes "0 \<le> a" and "a < 11"
  shows "DaysBeforeMonth y a < DaysBeforeMonth y (a + 1)"
proof -
  have "a = 0 \<or> a = 1 \<or> a = 2 \<or> a = 3 \<or> a = 4 \<or> a = 5 \<or> a = 6 \<or> a = 7
         \<or> a = 8 \<or> a = 9 \<or> a = 10" using assms by arith
  then show ?thesis by (elim disjE) (simp_all add: DaysBeforeMonth_def Let_def)
qed

lemma firstDayOfMonth_step: "firstDayOfMonth k < firstDayOfMonth (k + 1)"
proof -
  define y where "y = k div 12"
  define m where "m = k mod 12"
  have m: "0 \<le> m" "m < 12" by (simp_all add: m_def)
  have k: "k = 12 * y + m" by (simp add: y_def m_def)
  have f: "firstDayOfMonth k = DayFromYear y + DaysBeforeMonth y m"
    by (simp add: firstDayOfMonth_def MakeDay_def Let_def y_def m_def)
  show ?thesis
  proof (cases "m < 11")
    case True
    then have "(k + 1) div 12 = y" "(k + 1) mod 12 = m + 1"
      using m k by (simp_all add: div_pos_pos_trivial mod_pos_pos_trivial add.assoc)
    then have "firstDayOfMonth (k + 1) = DayFromYear y + DaysBeforeMonth y (m + 1)"
      by (simp add: firstDayOfMonth_def MakeDay_def Let_def)
    then show ?thesis using f DaysBeforeMonth_step [of m y] m True by simp
  next
    case False
    then have m11: "m = 11" using m by simp
    then have "k + 1 = 12 * (y + 1) + 0" using k by simp
    then have "(k + 1) div 12 = y + 1" "(k + 1) mod 12 = 0"
      by (simp_all del: mult_div_mod_eq)
    then have "firstDayOfMonth (k + 1) = DayFromYear (y + 1)"
      by (simp add: firstDayOfMonth_def MakeDay_def Let_def DaysBeforeMonth_def)
    moreover have "DaysBeforeMonth y m \<le> 335" using DaysBeforeMonth_bounds [of m y] m by simp
    ultimately show ?thesis
      using f DayFromYear_Suc [of y] DaysInYear_bounds [of y] by linarith
  qed
qed

lemma firstDayOfMonth_strict_mono_nat: "firstDayOfMonth k < firstDayOfMonth (k + 1 + int n)"
proof (induction n)
  case 0
  show ?case using firstDayOfMonth_step [of k] by simp
next
  case (Suc n)
  have "firstDayOfMonth (k + 1 + int n) < firstDayOfMonth (k + 1 + int n + 1)"
    by (rule firstDayOfMonth_step)
  then show ?case using Suc by (simp add: add.assoc add.commute add.left_commute)
qed

lemma firstDayOfMonth_strict_mono:
  assumes "k < k'"
  shows "firstDayOfMonth k < firstDayOfMonth k'"
proof -
  have "0 \<le> k' - (k + 1)" using assms by simp
  then obtain n :: nat where "k' - (k + 1) = int n" using nonneg_int_cases by blast
  then have "k' = k + 1 + int n" by simp
  then show ?thesis using firstDayOfMonth_strict_mono_nat [of k n] by simp
qed


lemma firstDayOfMonth_inj: "firstDayOfMonth k = firstDayOfMonth k' \<Longrightarrow> k = k'"
  using firstDayOfMonth_strict_mono [of k k'] firstDayOfMonth_strict_mono [of k' k]
  by (cases k k' rule: linorder_cases) simp_all

lemma MakeDay_firstDayOfMonth: "MakeDay y m dt = firstDayOfMonth (12 * y + m) + dt - 1"
  using MakeDay_normal [of y m dt] MakeDay_add_date [of 0 "12 * y + m" 1 "dt - 1"]
  by (simp add: firstDayOfMonth_def)

subsection \<open>Setting the month and the day of a date\<close>

lemma ToIntegerOrInfinity_of_int: "ToIntegerOrInfinity (of_int k) = k"
  by (simp add: ToIntegerOrInfinity_def)

lemma Day_eq_firstDayOfMonth:
  "Day d = firstDayOfMonth (12 * YearFromTime d + MonthFromTime d) + DateFromTime d - 1"
  using MakeDay_civil [of d 0] MakeDay_firstDayOfMonth [of "YearFromTime d" "MonthFromTime d"
    "DateFromTime d"] by simp

lemma Day_setMonth:
  "Day (setMonth d m) =
     firstDayOfMonth (12 * YearFromTime d + ToIntegerOrInfinity m) + DateFromTime d - 1"
  by (simp add: setMonth_def Day_MakeDate MakeDay_firstDayOfMonth)

lemma TimeWithinDay_setMonth: "TimeWithinDay (setMonth d m) = TimeWithinDay d"
  by (simp add: setMonth_def TimeWithinDay_MakeDate)

lemma date_eqI:
  assumes "Day a = Day b" and "TimeWithinDay a = TimeWithinDay b"
  shows "a = b"
proof -
  have "a = MakeDate (Day a) (TimeWithinDay a)" by (simp only: MakeDate_Day)
  also have "\<dots> = MakeDate (Day b) (TimeWithinDay b)" by (simp only: assms)
  also have "\<dots> = b" by (simp only: MakeDate_Day)
  finally show ?thesis .
qed


lemma setDate_shift: "setDate d (getDate d + k) = d + k * msPerDay"
proof -
  have "setDate d (getDate d + k) = MakeDate (Day d + k) (TimeWithinDay d)"
    by (simp add: setDate_def getDate_def MakeDay_civil)
  also have "\<dots> = MakeDate (Day d) (TimeWithinDay d) + k * msPerDay"
    by (simp add: MakeDate_def algebra_simps)
  finally show ?thesis by (simp add: MakeDate_Day)
qed







section \<open>Claims about the utilities and the connection sizing\<close>



lemma connection_durationMonths:
  "durationMonths (connection (calculateProjectTimeline config)) = connectionDurationUsed config"
  by (simp add: calculateProjectTimeline_def Let_def split_beta)

lemma connectionDurationUsed_spec: "connectionDurationUsed config = specConnectionDuration config"
  by (cases "connectionDuration (overrides config)")
     (simp_all add: connectionDurationUsed_def specConnectionDuration_def Let_def)

text \<open>
  Claim C6. The duration of the connection range of the result is 0 when the connection
  phase is skipped, else the override when there is one, else 5 months under
  self-consumption, else 6, 9, 12 or 18 months by power tier. The tiers are exact at their
  boundary: 36 kWc gives 6 months and 36.0001 kWc gives 9.
\<close>

theorem C6_connection_duration:
  "durationMonths (connection (calculateProjectTimeline config)) = specConnectionDuration config
   \<and> durationMonths (connection (calculateProjectTimeline (referenceProject\<lparr>powerKWc := 36\<rparr>))) = 6
   \<and> durationMonths (connection (calculateProjectTimeline
         (referenceProject\<lparr>powerKWc := 360001 / 10000\<rparr>))) = 9"
proof (intro conjI)
  show "durationMonths (connection (calculateProjectTimeline config)) =
        specConnectionDuration config"
    by (simp only: connection_durationMonths connectionDurationUsed_spec)
  show "durationMonths (connection (calculateProjectTimeline
          (referenceProject\<lparr>powerKWc := 36\<rparr>))) = 6"
    by (simp add: connection_durationMonths connectionDurationUsed_def referenceProject_def
        noOverrides_def noSkips_def)
  show "durationMonths (connection (calculateProjectTimeline
          (referenceProject\<lparr>powerKWc := 360001 / 10000\<rparr>))) = 9"
    by (simp add: connection_durationMonths connectionDurationUsed_def referenceProject_def
        noOverrides_def noSkips_def)
qed

section \<open>The seasonality walks\<close>

declare backwardWalk.simps [simp del] forwardWalk.simps [simp del]

lemma backwardWalk_step:
  "of_int v < w \<Longrightarrow> p < 36 \<Longrightarrow>
   backwardWalk w (c, v, p) =
     backwardWalk w (subMonths c 1,
       (if \<not> isRestrictedMonth (subMonths c 1) then v + 1 else v), p + 1)"
  by (subst backwardWalk.simps) (simp add: Let_def)

lemma backwardWalk_stop:
  "w \<le> of_int v \<or> 36 \<le> p \<Longrightarrow> backwardWalk w (c, v, p) = (c, v, p)"
  by (subst backwardWalk.simps) auto

lemma forwardWalk_step:
  "of_int v < w \<Longrightarrow> p < 36 \<Longrightarrow>
   forwardWalk w (c, v, p) =
     forwardWalk w (addMonths c 1, (if \<not> isRestrictedMonth c then v + 1 else v), p + 1)"
  by (subst forwardWalk.simps) simp

lemma forwardWalk_stop:
  "w \<le> of_int v \<or> 36 \<le> p \<Longrightarrow> forwardWalk w (c, v, p) = (c, v, p)"
  by (subst forwardWalk.simps) auto

lemma backwardCount_Suc:
  "backwardCount t (Suc k) =
     backwardCount t k + (if \<not> isRestrictedMonth (backwardCursor t (Suc k)) then 1 else 0)"
  by (simp add: backwardCount_def)

lemma forwardCount_Suc:
  "forwardCount t (Suc k) =
     forwardCount t k + (if \<not> isRestrictedMonth (forwardCursor t k) then 1 else 0)"
  by (simp add: forwardCount_def)

lemma backwardWalk_from:
  "p \<le> 36 \<Longrightarrow>
   backwardWalk w (backwardCursor t p, backwardCount t p, p) =
     (let K = p + length (takeWhile (\<lambda>k. of_int (backwardCount t k) < w) [p..<36])
      in (backwardCursor t K, backwardCount t K, K))"
proof (induction "36 - p" arbitrary: p)
  case 0
  then have "p = 36" by simp
  then show ?case by (simp add: backwardWalk_stop)
next
  case (Suc n)
  then have p: "p < 36" by simp
  then have upt: "[p..<36] = p # [Suc p..<36]" by (simp add: upt_conv_Cons)
  show ?case
  proof (cases "of_int (backwardCount t p) < w")
    case True
    have ih: "backwardWalk w (backwardCursor t (Suc p), backwardCount t (Suc p), Suc p) =
      (let K = Suc p + length (takeWhile (\<lambda>k. of_int (backwardCount t k) < w) [Suc p..<36])
       in (backwardCursor t K, backwardCount t K, K))"
      using Suc.hyps(1) [of "Suc p"] Suc.hyps(2) p by simp
    have step: "backwardWalk w (backwardCursor t p, backwardCount t p, p) =
          backwardWalk w (backwardCursor t (Suc p), backwardCount t (Suc p), Suc p)"
      using True p by (simp add: backwardWalk_step backwardCount_Suc)
    have K: "p + length (takeWhile (\<lambda>k. of_int (backwardCount t k) < w) [p..<36]) =
          Suc p + length (takeWhile (\<lambda>k. of_int (backwardCount t k) < w) [Suc p..<36])"
      using True by (simp add: upt)
    show ?thesis by (simp only: step ih K)
  next
    case False
    then show ?thesis by (simp add: backwardWalk_stop upt)
  qed
qed

lemma forwardWalk_from:
  "p \<le> 36 \<Longrightarrow>
   forwardWalk w (forwardCursor t p, forwardCount t p, p) =
     (let K = p + length (takeWhile (\<lambda>k. of_int (forwardCount t k) < w) [p..<36])
      in (forwardCursor t K, forwardCount t K, K))"
proof (induction "36 - p" arbitrary: p)
  case 0
  then have "p = 36" by simp
  then show ?case by (simp add: forwardWalk_stop)
next
  case (Suc n)
  then have p: "p < 36" by simp
  then have upt: "[p..<36] = p # [Suc p..<36]" by (simp add: upt_conv_Cons)
  show ?case
  proof (cases "of_int (forwardCount t p) < w")
    case True
    have ih: "forwardWalk w (forwardCursor t (Suc p), forwardCount t (Suc p), Suc p) =
      (let K = Suc p + length (takeWhile (\<lambda>k. of_int (forwardCount t k) < w) [Suc p..<36])
       in (forwardCursor t K, forwardCount t K, K))"
      using Suc.hyps(1) [of "Suc p"] Suc.hyps(2) p by simp
    have step: "forwardWalk w (forwardCursor t p, forwardCount t p, p) =
          forwardWalk w (forwardCursor t (Suc p), forwardCount t (Suc p), Suc p)"
      using True p by (simp add: forwardWalk_step forwardCount_Suc)
    have K: "p + length (takeWhile (\<lambda>k. of_int (forwardCount t k) < w) [p..<36]) =
          Suc p + length (takeWhile (\<lambda>k. of_int (forwardCount t k) < w) [Suc p..<36])"
      using True by (simp add: upt)
    show ?thesis by (simp only: step ih K)
  next
    case False
    then show ?thesis by (simp add: forwardWalk_stop upt)
  qed
qed

lemma backwardWalk_spec:
  "backwardWalk w (t, 0, 0) =
     (specBackwardStart w t, backwardCount t (backwardSteps w t), backwardSteps w t)"
  using backwardWalk_from [of 0 w t]
  by (simp add: backwardCount_def specBackwardStart_def backwardSteps_def Let_def)

lemma forwardWalk_spec:
  "forwardWalk w (t, 0, 0) =
     (specForwardEnd w t, forwardCount t (forwardSteps w t), forwardSteps w t)"
  using forwardWalk_from [of 0 w t]
  by (simp add: forwardCount_def specForwardEnd_def forwardSteps_def Let_def)

lemma backwardSteps_le: "backwardSteps w t \<le> 36"
  using length_takeWhile_le [of "\<lambda>k. of_int (backwardCount t k) < w" "[0..<36]"]
  by (simp add: backwardSteps_def)

lemma forwardSteps_le: "forwardSteps w t \<le> 36"
  using length_takeWhile_le [of "\<lambda>k. of_int (forwardCount t k) < w" "[0..<36]"]
  by (simp add: forwardSteps_def)

lemma steps_cut_short:
  assumes "P (length (takeWhile P [0..<36]))"
  shows "length (takeWhile P [0..<36]) = 36"
proof (rule ccontr)
  assume "length (takeWhile P [0..<36]) \<noteq> 36"
  moreover have "length (takeWhile P [0..<36]) \<le> 36"
    using length_takeWhile_le [of P "[0..<36]"] by simp
  ultimately have lt: "length (takeWhile P [0..<36]) < length [0..<36]" by simp
  then have "\<not> P ([0..<36] ! length (takeWhile P [0..<36]))" by (rule nth_length_takeWhile)
  moreover have "[0..<36] ! length (takeWhile P [0..<36]) = length (takeWhile P [0..<36])"
    using lt by (simp del: upt_Suc)
  ultimately show False using assms by simp
qed

lemma backwardSteps_cut_short:
  "of_int (backwardCount t (backwardSteps w t)) < w \<Longrightarrow> backwardSteps w t = 36"
  unfolding backwardSteps_def
  by (rule steps_cut_short [of "\<lambda>k. of_int (backwardCount t k) < w"])

lemma forwardSteps_cut_short:
  "of_int (forwardCount t (forwardSteps w t)) < w \<Longrightarrow> forwardSteps w t = 36"
  unfolding forwardSteps_def
  by (rule steps_cut_short [of "\<lambda>k. of_int (forwardCount t k) < w"])

lemma backwardCount_le: "backwardCount t k \<le> int k"
  using length_filter_le [of "\<lambda>j. \<not> isRestrictedMonth (backwardCursor t (Suc j))" "[0..<k]"]
  by (simp add: backwardCount_def)

lemma forwardCount_le: "forwardCount t k \<le> int k"
  using length_filter_le [of "\<lambda>j. \<not> isRestrictedMonth (forwardCursor t j)" "[0..<k]"]
  by (simp add: forwardCount_def)

lemma backwardSteps_large:
  assumes "36 < w"
  shows "backwardSteps w t = 36"
proof (rule backwardSteps_cut_short)
  have "backwardCount t (backwardSteps w t) \<le> 36"
    using backwardCount_le [of t "backwardSteps w t"] backwardSteps_le [of w t] by linarith
  then have "(of_int (backwardCount t (backwardSteps w t)) :: rat) \<le> of_int 36"
    by (simp only: of_int_le_iff)
  then show "of_int (backwardCount t (backwardSteps w t)) < w" using assms by simp
qed

lemma forwardSteps_large:
  assumes "36 < w"
  shows "forwardSteps w t = 36"
proof (rule forwardSteps_cut_short)
  have "forwardCount t (forwardSteps w t) \<le> 36"
    using forwardCount_le [of t "forwardSteps w t"] forwardSteps_le [of w t] by linarith
  then have "(of_int (forwardCount t (forwardSteps w t)) :: rat) \<le> of_int 36"
    by (simp only: of_int_le_iff)
  then show "of_int (forwardCount t (forwardSteps w t)) < w" using assms by simp
qed


section \<open>Evaluation on concrete dates\<close>

text \<open>
  Shifts by a whole number of months, in a form that evaluates on numerals: the month
  argument of \<open>setMonth\<close> is an integer, so the truncation leaves it as it is.
\<close>

lemma addMonths_of_int:
  "addMonths d (of_int n) =
     MakeDate (MakeDay (YearFromTime d) (MonthFromTime d + n) (DateFromTime d))
       (TimeWithinDay d)"
proof -
  have "of_int (getMonth d) + (of_int n :: rat) = of_int (getMonth d + n)" by simp
  then show ?thesis
    by (simp only: addMonths_def setMonth_def ToIntegerOrInfinity_of_int getMonth_def)
qed

lemma subMonths_of_int:
  "subMonths d (of_int n) =
     MakeDate (MakeDay (YearFromTime d) (MonthFromTime d - n) (DateFromTime d))
       (TimeWithinDay d)"
proof -
  have "of_int (getMonth d) - (of_int n :: rat) = of_int (getMonth d - n)" by simp
  then show ?thesis
    by (simp only: subMonths_def setMonth_def ToIntegerOrInfinity_of_int getMonth_def)
qed

lemma addMonths_numeral:
  "addMonths d (numeral k) =
     MakeDate (MakeDay (YearFromTime d) (MonthFromTime d + numeral k) (DateFromTime d))
       (TimeWithinDay d)"
  using addMonths_of_int [of d "numeral k"] by simp

lemma addMonths_one:
  "addMonths d 1 =
     MakeDate (MakeDay (YearFromTime d) (MonthFromTime d + 1) (DateFromTime d))
       (TimeWithinDay d)"
  using addMonths_of_int [of d 1] by simp

lemma addMonths_neg_one:
  "addMonths d (- 1) =
     MakeDate (MakeDay (YearFromTime d) (MonthFromTime d - 1) (DateFromTime d))
       (TimeWithinDay d)"
  using addMonths_of_int [of d "- 1"] by simp

lemma subMonths_numeral:
  "subMonths d (numeral k) =
     MakeDate (MakeDay (YearFromTime d) (MonthFromTime d - numeral k) (DateFromTime d))
       (TimeWithinDay d)"
  using subMonths_of_int [of d "numeral k"] by simp

lemma subMonths_one:
  "subMonths d 1 =
     MakeDate (MakeDay (YearFromTime d) (MonthFromTime d - 1) (DateFromTime d))
       (TimeWithinDay d)"
  using subMonths_of_int [of d 1] by simp

lemma subMonths_neg_numeral:
  "subMonths d (- numeral k) =
     MakeDate (MakeDay (YearFromTime d) (MonthFromTime d + numeral k) (DateFromTime d))
       (TimeWithinDay d)"
  using subMonths_of_int [of d "- numeral k"] by simp

lemmas cal_eval = msPerDay_def Day_def TimeWithinDay_def DaysInYear_def DayFromYear_def
  YearFromDay_def YearFromTime_def InLeapYear_def DayWithinYear_def MonthFromTime_def
  DateFromTime_def DaysBeforeMonth_def MakeDay_def MakeDate_def
  getFullYear_def getMonth_def getDate_def setDate_def utcDate_def
  addMonths_numeral addMonths_one addMonths_neg_one subMonths_numeral subMonths_one
  subMonths_neg_numeral isRestrictedMonth_def Let_def

lemma reference_months_forward:
  "addMonths (utcDate 2025 3 1) 4 = utcDate 2025 7 1"
  "addMonths (utcDate 2025 7 1) 4 = utcDate 2025 11 1"
  "addMonths (utcDate 2025 11 1) 9 = utcDate 2026 8 1"
  by (simp_all add: cal_eval)

lemma reference_target:
  "setDate (utcDate 2026 8 1) (getDate (utcDate 2026 8 1) - 15) = utcDate 2026 7 17"
  by (simp add: cal_eval)

lemma reference_months_backward:
  "subMonths (utcDate 2026 7 17) 1 = utcDate 2026 6 17"
  "subMonths (utcDate 2026 6 17) 1 = utcDate 2026 5 17"
  "subMonths (utcDate 2026 5 17) 1 = utcDate 2026 4 17"
  "subMonths (utcDate 2026 4 17) 1 = utcDate 2026 3 17"
  by (simp_all add: cal_eval)

lemma reference_restricted:
  "\<not> isRestrictedMonth (utcDate 2026 6 17)"
  "\<not> isRestrictedMonth (utcDate 2026 5 17)"
  "isRestrictedMonth (utcDate 2026 4 17)"
  "\<not> isRestrictedMonth (utcDate 2026 3 17)"
  by (simp_all add: cal_eval)

lemma reference_walk:
  "backwardWalk 3 (utcDate 2026 7 17, 0, 0) = (utcDate 2026 3 17, 3, 4)"
  by (simp add: backwardWalk_step backwardWalk_stop reference_months_backward
      reference_restricted)

lemma reference_order: "\<not> utcDate 2026 3 17 < utcDate 2025 11 1"
  by (simp add: cal_eval)

lemma reference_fields:
  "signatureDate referenceProject = utcDate 2025 3 1"
  "powerKWc referenceProject = 200"
  "typology referenceProject = ROOF_EXISTING"
  "injectionType referenceProject = TOTAL_INJECTION"
  "investmentModel referenceProject = OWN_INVESTMENT"
  "isSubcontracted referenceProject = False"
  "overrides referenceProject = noOverrides"
  "skippedPhases referenceProject = noSkips"
  by (simp_all add: referenceProject_def)

lemmas reference_config = reference_fields noOverrides_def noSkips_def

lemma reference_urbanEnd: "urbanEnd referenceProject = utcDate 2025 7 1"
  by (simp add: urbanEnd_def urbanDuration_def T0_def reference_config
      reference_months_forward)

lemma reference_creRange:
  "creRange referenceProject =
     Some \<lparr>start = utcDate 2025 7 1, end' = utcDate 2025 11 1, durationMonths = 4\<rparr>"
  by (simp add: creRange_def reference_urbanEnd reference_months_forward reference_config)

lemma reference_leaseRange:
  "leaseRange referenceProject =
     Some \<lparr>start = utcDate 2025 7 1, end' = utcDate 2025 11 1, durationMonths = 4\<rparr>"
  by (simp add: leaseRange_def reference_urbanEnd reference_months_forward reference_config)

lemma reference_lock: "securityLockDate referenceProject = utcDate 2025 11 1"
  by (simp add: securityLockDate_def creEndDate_def leaseEndDate_def reference_creRange
      reference_leaseRange)

lemma reference_connectionDuration: "connectionDurationUsed referenceProject = 9"
  by (simp add: connectionDurationUsed_def reference_config)

lemma reference_connectionEnd: "initialConnectionEnd referenceProject = utcDate 2026 8 1"
  by (simp add: initialConnectionEnd_def reference_lock reference_connectionDuration
      reference_months_forward)

lemma reference_work: "workMonthsNeeded referenceProject = 3"
  by (simp add: workMonthsNeeded_def reference_config)

lemma reference_targetEnd: "targetConstructionEnd referenceProject = utcDate 2026 7 17"
  by (simp add: targetConstructionEnd_def reference_connectionEnd reference_target)

lemma reference_initialStart: "initialConstructionStart referenceProject = utcDate 2026 3 17"
  by (simp add: initialConstructionStart_def reference_work reference_targetEnd reference_walk
      reference_config)

lemma reference_stage:
  "constructionStage referenceProject =
     (\<lparr>start = utcDate 2026 3 17, end' = utcDate 2026 8 1 - 15 * 24 * 60 * 60 * 1000,
       durationMonths = of_int (diffMonths (utcDate 2026 3 17) (utcDate 2026 8 1))\<rparr>,
      utcDate 2025 11 1, utcDate 2026 8 1)"
  by (simp add: constructionStage_def reference_initialStart reference_lock reference_order
      reference_connectionEnd reference_config Let_def)

section \<open>The construction stage, case by case\<close>

lemma result_connection:
  "connection (calculateProjectTimeline config) =
     \<lparr>start = fst (snd (constructionStage config)),
      end' = snd (snd (constructionStage config)),
      durationMonths = connectionDurationUsed config\<rparr>"
  by (simp add: calculateProjectTimeline_def Let_def split_beta)

lemma result_construction:
  "construction (calculateProjectTimeline config) = fst (constructionStage config)"
  by (simp add: calculateProjectTimeline_def Let_def split_beta)

lemma stage_skipped:
  assumes "skipConstruction (skippedPhases config)"
  shows "constructionStage config =
     (\<lparr>start = securityLockDate config, end' = securityLockDate config, durationMonths = 0\<rparr>,
      securityLockDate config, initialConnectionEnd config)"
  using assms by (simp add: constructionStage_def Let_def)

lemma stage_no_repair:
  assumes "\<not> skipConstruction (skippedPhases config)"
    and "\<not> initialConstructionStart config < securityLockDate config"
  shows "constructionStage config =
     (\<lparr>start = initialConstructionStart config,
       end' = initialConnectionEnd config - 15 * 24 * 60 * 60 * 1000,
       durationMonths =
         of_int (diffMonths (initialConstructionStart config) (initialConnectionEnd config))\<rparr>,
      securityLockDate config, initialConnectionEnd config)"
  using assms by (simp add: constructionStage_def Let_def)

lemma stage_repair:
  assumes "\<not> skipConstruction (skippedPhases config)"
    and "initialConstructionStart config < securityLockDate config"
    and "\<not> skipConnection (skippedPhases config)"
  shows "constructionStage config =
     (\<lparr>start = securityLockDate config,
       end' = newConnectionEnd config - 15 * 24 * 60 * 60 * 1000,
       durationMonths =
         of_int (diffMonths (securityLockDate config) (newConnectionEnd config))\<rparr>,
      subMonths (newConnectionEnd config) (connectionDurationUsed config),
      newConnectionEnd config)"
  using assms by (simp add: constructionStage_def Let_def)

lemma stage_repair_no_connection:
  assumes "\<not> skipConstruction (skippedPhases config)"
    and "initialConstructionStart config < securityLockDate config"
    and "skipConnection (skippedPhases config)"
  shows "constructionStage config =
     (\<lparr>start = securityLockDate config,
       end' = initialConnectionEnd config - 15 * 24 * 60 * 60 * 1000,
       durationMonths =
         of_int (diffMonths (securityLockDate config) (initialConnectionEnd config))\<rparr>,
      securityLockDate config, initialConnectionEnd config)"
  using assms by (simp add: constructionStage_def Let_def)

lemma targetConstructionEnd_minus_15_days:
  "targetConstructionEnd config = initialConnectionEnd config - 15 * msPerDay"
  using setDate_shift [of "initialConnectionEnd config" "- 15"]
  by (simp add: targetConstructionEnd_def)

lemma newConnectionEnd_plus_15_days:
  "newConnectionEnd config = actualConstructionEnd config + 15 * msPerDay"
  using setDate_shift [of "actualConstructionEnd config" 15]
  by (simp add: newConnectionEnd_def)

lemma initialConstructionStart_spec:
  "initialConstructionStart config =
     (if isSubcontracted config
      then subMonths (targetConstructionEnd config) (workMonthsNeeded config)
      else specBackwardStart (workMonthsNeeded config) (targetConstructionEnd config))"
  by (simp add: initialConstructionStart_def backwardWalk_spec)

lemma actualConstructionEnd_spec:
  "actualConstructionEnd config =
     (if isSubcontracted config
      then addMonths (securityLockDate config) (workMonthsNeeded config)
      else specForwardEnd (workMonthsNeeded config) (securityLockDate config))"
  by (simp add: actualConstructionEnd_def forwardWalk_spec)

text \<open>
  Claim C1. When construction is not skipped and the backward placement starts before the
  security lock, the construction start of the result is the lock; the construction end is
  recomputed forward from the lock (lock plus the work months when subcontracted, else the
  forward walk over non-restricted months, of at most 36 steps); the new connection end is
  that end plus 15 days; and when the connection is not skipped, the connection range of
  the result ends there, starts the connection duration earlier, and keeps its duration.
\<close>

theorem C1_constraint_repair:
  assumes "\<not> skipConstruction (skippedPhases config)"
    and "initialConstructionStart config < securityLockDate config"
  shows "start (construction (calculateProjectTimeline config)) = securityLockDate config
    \<and> actualConstructionEnd config =
        (if isSubcontracted config
         then addMonths (securityLockDate config) (workMonthsNeeded config)
         else specForwardEnd (workMonthsNeeded config) (securityLockDate config))
    \<and> forwardSteps (workMonthsNeeded config) (securityLockDate config) \<le> 36
    \<and> newConnectionEnd config = actualConstructionEnd config + 15 * msPerDay
    \<and> (\<not> skipConnection (skippedPhases config) \<longrightarrow>
         end' (connection (calculateProjectTimeline config)) = newConnectionEnd config
       \<and> start (connection (calculateProjectTimeline config)) =
           subMonths (end' (connection (calculateProjectTimeline config)))
             (connectionDurationUsed config)
       \<and> durationMonths (connection (calculateProjectTimeline config)) =
           connectionDurationUsed config)"
proof (intro conjI impI)
  show "start (construction (calculateProjectTimeline config)) = securityLockDate config"
  proof (cases "skipConnection (skippedPhases config)")
    case True
    then show ?thesis
      using assms by (simp add: result_construction stage_repair_no_connection)
  next
    case False
    then show ?thesis using assms by (simp add: result_construction stage_repair)
  qed
  show "actualConstructionEnd config =
        (if isSubcontracted config
         then addMonths (securityLockDate config) (workMonthsNeeded config)
         else specForwardEnd (workMonthsNeeded config) (securityLockDate config))"
    by (rule actualConstructionEnd_spec)
  show "forwardSteps (workMonthsNeeded config) (securityLockDate config) \<le> 36"
    by (rule forwardSteps_le)
  show "newConnectionEnd config = actualConstructionEnd config + 15 * msPerDay"
    by (rule newConnectionEnd_plus_15_days)
next
  assume c: "\<not> skipConnection (skippedPhases config)"
  show "end' (connection (calculateProjectTimeline config)) = newConnectionEnd config"
    using assms c by (simp add: result_connection stage_repair)
  show "start (connection (calculateProjectTimeline config)) =
        subMonths (end' (connection (calculateProjectTimeline config)))
          (connectionDurationUsed config)"
    using assms c by (simp add: result_connection stage_repair)
  show "durationMonths (connection (calculateProjectTimeline config)) =
        connectionDurationUsed config"
    by (simp add: result_connection)
qed

lemma backwardSteps_stop:
  "backwardSteps w t = 36 \<or> w \<le> of_int (backwardCount t (backwardSteps w t))"
  using backwardSteps_cut_short [of t w] by (cases "of_int (backwardCount t (backwardSteps w t)) < w") simp_all

text \<open>
  Claim C2. The target construction end is the connection end minus 15 days. The initial
  construction start is the target minus the work months when subcontracted; otherwise it
  is the cursor of the backward walk, which moves one month per step, counts the steps that
  land on a non-restricted month, takes at most 36 steps and stops with the budget used up
  or the counter at the work months needed. When construction is not skipped and this start
  is not before the lock, it is the construction start of the result.
\<close>

theorem C2_backward_placement:
  "targetConstructionEnd config = initialConnectionEnd config - 15 * msPerDay
   \<and> initialConstructionStart config =
       (if isSubcontracted config
        then subMonths (targetConstructionEnd config) (workMonthsNeeded config)
        else specBackwardStart (workMonthsNeeded config) (targetConstructionEnd config))
   \<and> backwardSteps (workMonthsNeeded config) (targetConstructionEnd config) \<le> 36
   \<and> (backwardSteps (workMonthsNeeded config) (targetConstructionEnd config) = 36
      \<or> workMonthsNeeded config \<le>
          of_int (backwardCount (targetConstructionEnd config)
            (backwardSteps (workMonthsNeeded config) (targetConstructionEnd config))))
   \<and> (\<not> skipConstruction (skippedPhases config)
        \<and> \<not> initialConstructionStart config < securityLockDate config \<longrightarrow>
      start (construction (calculateProjectTimeline config)) = initialConstructionStart config)"
proof (intro conjI impI)
  show "targetConstructionEnd config = initialConnectionEnd config - 15 * msPerDay"
    by (rule targetConstructionEnd_minus_15_days)
  show "initialConstructionStart config =
       (if isSubcontracted config
        then subMonths (targetConstructionEnd config) (workMonthsNeeded config)
        else specBackwardStart (workMonthsNeeded config) (targetConstructionEnd config))"
    by (rule initialConstructionStart_spec)
  show "backwardSteps (workMonthsNeeded config) (targetConstructionEnd config) \<le> 36"
    by (rule backwardSteps_le)
  show "backwardSteps (workMonthsNeeded config) (targetConstructionEnd config) = 36
      \<or> workMonthsNeeded config \<le>
          of_int (backwardCount (targetConstructionEnd config)
            (backwardSteps (workMonthsNeeded config) (targetConstructionEnd config)))"
    by (rule backwardSteps_stop)
next
  assume "\<not> skipConstruction (skippedPhases config)
        \<and> \<not> initialConstructionStart config < securityLockDate config"
  then show "start (construction (calculateProjectTimeline config)) =
        initialConstructionStart config"
    by (simp add: result_construction stage_no_repair)
qed

section \<open>The reference scenario\<close>

text \<open>
  The placement on the reference project, which needs no repair.
\<close>

theorem C2_backward_placement_witness:
  "\<not> skipConstruction (skippedPhases referenceProject)
   \<and> \<not> initialConstructionStart referenceProject < securityLockDate referenceProject
   \<and> utcDate 2026 7 17 = utcDate 2026 8 1 - 15 * msPerDay
   \<and> specBackwardStart 3 (utcDate 2026 7 17) = utcDate 2026 3 17
   \<and> start (construction (calculateProjectTimeline referenceProject)) = utcDate 2026 3 17"
proof -
  have skip: "\<not> skipConstruction (skippedPhases referenceProject)"
    by (simp add: reference_config)
  have order: "\<not> initialConstructionStart referenceProject < securityLockDate referenceProject"
    by (simp add: reference_initialStart reference_lock reference_order)
  note placement = C2_backward_placement [of referenceProject]
  from placement have "targetConstructionEnd referenceProject =
      initialConnectionEnd referenceProject - 15 * msPerDay" by (rule conjunct1)
  then have target: "utcDate 2026 7 17 = utcDate 2026 8 1 - 15 * msPerDay"
    by (simp only: reference_targetEnd reference_connectionEnd)
  from placement have "initialConstructionStart referenceProject =
       (if isSubcontracted referenceProject
        then subMonths (targetConstructionEnd referenceProject)
               (workMonthsNeeded referenceProject)
        else specBackwardStart (workMonthsNeeded referenceProject)
               (targetConstructionEnd referenceProject))" by blast
  then have walk: "specBackwardStart 3 (utcDate 2026 7 17) = utcDate 2026 3 17"
    by (simp add: reference_initialStart reference_work reference_targetEnd reference_fields)
  from placement skip order
  have "start (construction (calculateProjectTimeline referenceProject)) =
      initialConstructionStart referenceProject" by blast
  then have result:
    "start (construction (calculateProjectTimeline referenceProject)) = utcDate 2026 3 17"
    by (simp only: reference_initialStart)
  from skip order target walk result show ?thesis by blast
qed

text \<open>
  Claim C4. The scenario of the specification, stage by stage: urbanism of 4 months ending
  2025-07-01; tender and lease of 4 months ending 2025-11-01; lock on 2025-11-01; connection
  of 9 months ending 2026-08-01; 3 work months; target construction end 2026-07-17; the
  backward walk passes June and May (counted), April (restricted, not counted) and March
  (counted), and leaves after 4 steps with 3 months counted, on 2026-03-17.
\<close>

theorem C4_reference_scenario:
  "urbanDuration referenceProject = 4
   \<and> urbanEnd referenceProject = utcDate 2025 7 1
   \<and> creRange referenceProject =
       Some \<lparr>start = utcDate 2025 7 1, end' = utcDate 2025 11 1, durationMonths = 4\<rparr>
   \<and> leaseRange referenceProject =
       Some \<lparr>start = utcDate 2025 7 1, end' = utcDate 2025 11 1, durationMonths = 4\<rparr>
   \<and> securityLockDate referenceProject = utcDate 2025 11 1
   \<and> connectionDurationUsed referenceProject = 9
   \<and> initialConnectionEnd referenceProject = utcDate 2026 8 1
   \<and> workMonthsNeeded referenceProject = 3
   \<and> targetConstructionEnd referenceProject = utcDate 2026 7 17
   \<and> backwardWalk 3 (utcDate 2026 7 17, 0, 0) = (utcDate 2026 3 17, 3, 4)
   \<and> subMonths (utcDate 2026 7 17) 1 = utcDate 2026 6 17
   \<and> isRestrictedMonth (utcDate 2026 6 17) = False
   \<and> subMonths (utcDate 2026 6 17) 1 = utcDate 2026 5 17
   \<and> isRestrictedMonth (utcDate 2026 5 17) = False
   \<and> subMonths (utcDate 2026 5 17) 1 = utcDate 2026 4 17
   \<and> isRestrictedMonth (utcDate 2026 4 17) = True
   \<and> subMonths (utcDate 2026 4 17) 1 = utcDate 2026 3 17
   \<and> isRestrictedMonth (utcDate 2026 3 17) = False
   \<and> start (construction (calculateProjectTimeline referenceProject)) = utcDate 2026 3 17"
proof (intro conjI)
  show "urbanDuration referenceProject = 4"
    by (simp add: urbanDuration_def reference_config)
  show "urbanEnd referenceProject = utcDate 2025 7 1" by (rule reference_urbanEnd)
  show "creRange referenceProject =
       Some \<lparr>start = utcDate 2025 7 1, end' = utcDate 2025 11 1, durationMonths = 4\<rparr>"
    by (rule reference_creRange)
  show "leaseRange referenceProject =
       Some \<lparr>start = utcDate 2025 7 1, end' = utcDate 2025 11 1, durationMonths = 4\<rparr>"
    by (rule reference_leaseRange)
  show "securityLockDate referenceProject = utcDate 2025 11 1" by (rule reference_lock)
  show "connectionDurationUsed referenceProject = 9" by (rule reference_connectionDuration)
  show "initialConnectionEnd referenceProject = utcDate 2026 8 1"
    by (rule reference_connectionEnd)
  show "workMonthsNeeded referenceProject = 3" by (rule reference_work)
  show "targetConstructionEnd referenceProject = utcDate 2026 7 17"
    by (rule reference_targetEnd)
  show "backwardWalk 3 (utcDate 2026 7 17, 0, 0) = (utcDate 2026 3 17, 3, 4)"
    by (rule reference_walk)
  show "subMonths (utcDate 2026 7 17) 1 = utcDate 2026 6 17"
    by (rule reference_months_backward)
  show "isRestrictedMonth (utcDate 2026 6 17) = False"
    by (simp add: reference_restricted)
  show "subMonths (utcDate 2026 6 17) 1 = utcDate 2026 5 17"
    by (rule reference_months_backward)
  show "isRestrictedMonth (utcDate 2026 5 17) = False"
    by (simp add: reference_restricted)
  show "subMonths (utcDate 2026 5 17) 1 = utcDate 2026 4 17"
    by (rule reference_months_backward)
  show "isRestrictedMonth (utcDate 2026 4 17) = True"
    by (simp add: reference_restricted)
  show "subMonths (utcDate 2026 4 17) 1 = utcDate 2026 3 17"
    by (rule reference_months_backward)
  show "isRestrictedMonth (utcDate 2026 3 17) = False"
    by (simp add: reference_restricted)
  show "start (construction (calculateProjectTimeline referenceProject)) = utcDate 2026 3 17"
    by (simp add: result_construction reference_stage)
qed

section \<open>The security lock\<close>

lemma securityLockDate_later_of:
  "securityLockDate config =
     max (case aoCre (calculateProjectTimeline config) of
            Some r \<Rightarrow> end' r | None \<Rightarrow> urbanEnd config)
         (case leaseManagement (calculateProjectTimeline config) of
            Some r \<Rightarrow> end' r | None \<Rightarrow> urbanEnd config)"
  by (simp add: securityLockDate_def creEndDate_def leaseEndDate_def
      calculateProjectTimeline_def Let_def split_beta)

lemma construction_start_not_before_lock:
  "securityLockDate config \<le> start (construction (calculateProjectTimeline config))"
proof (cases "skipConstruction (skippedPhases config)")
  case True
  then show ?thesis by (simp add: result_construction stage_skipped)
next
  case False
  show ?thesis
  proof (cases "initialConstructionStart config < securityLockDate config")
    case before: True
    show ?thesis
    proof (cases "skipConnection (skippedPhases config)")
      case True
      then show ?thesis
        using False before by (simp add: result_construction stage_repair_no_connection)
    next
      case no_skip: False
      then show ?thesis using False before by (simp add: result_construction stage_repair)
    qed
  next
    case not_before: False
    then show ?thesis using False by (simp add: result_construction stage_no_repair)
  qed
qed

lemma connection_start_without_repair:
  assumes "skipConstruction (skippedPhases config)
           \<or> \<not> initialConstructionStart config < securityLockDate config"
  shows "start (connection (calculateProjectTimeline config)) = securityLockDate config"
proof (cases "skipConstruction (skippedPhases config)")
  case True
  then show ?thesis by (simp add: result_connection stage_skipped)
next
  case False
  then have "\<not> initialConstructionStart config < securityLockDate config"
    using assms by simp
  then show ?thesis using False by (simp add: result_connection stage_no_repair)
qed

subsection \<open>A repair that moves the connection before the lock\<close>

lemma selfConsumption_fields:
  "signatureDate selfConsumptionProject = utcDate 2025 5 20"
  "powerKWc selfConsumptionProject = 600"
  "typology selfConsumptionProject = ROOF_EXISTING"
  "injectionType selfConsumptionProject = AUTOCONSUMPTION"
  "investmentModel selfConsumptionProject = CLIENT_INVESTMENT"
  "isSubcontracted selfConsumptionProject = False"
  "overrides selfConsumptionProject = noOverrides"
  "skippedPhases selfConsumptionProject = noSkips"
  by (simp_all add: selfConsumptionProject_def)

lemmas selfConsumption_config = selfConsumption_fields noOverrides_def noSkips_def

lemma selfConsumption_months:
  "addMonths (utcDate 2025 5 20) 4 = utcDate 2025 9 20"
  "addMonths (utcDate 2025 9 20) 5 = utcDate 2026 2 20"
  "subMonths (utcDate 2026 2 5) 1 = utcDate 2026 1 5"
  "subMonths (utcDate 2026 1 5) 1 = utcDate 2025 12 5"
  "subMonths (utcDate 2025 12 5) 1 = utcDate 2025 11 5"
  "subMonths (utcDate 2025 11 5) 1 = utcDate 2025 10 5"
  "subMonths (utcDate 2025 10 5) 1 = utcDate 2025 9 5"
  "addMonths (utcDate 2025 9 20) 1 = utcDate 2025 10 20"
  "addMonths (utcDate 2025 10 20) 1 = utcDate 2025 11 20"
  "addMonths (utcDate 2025 11 20) 1 = utcDate 2025 12 20"
  "addMonths (utcDate 2025 12 20) 1 = utcDate 2026 1 20"
  "subMonths (utcDate 2026 2 4) 5 = utcDate 2025 9 4"
  by (simp_all add: cal_eval)

lemma selfConsumption_days:
  "setDate (utcDate 2026 2 20) (getDate (utcDate 2026 2 20) - 15) = utcDate 2026 2 5"
  "setDate (utcDate 2026 1 20) (getDate (utcDate 2026 1 20) + 15) = utcDate 2026 2 4"
  by (simp_all add: cal_eval)

lemma selfConsumption_restricted:
  "isRestrictedMonth (utcDate 2026 1 5)"
  "\<not> isRestrictedMonth (utcDate 2025 12 5)"
  "\<not> isRestrictedMonth (utcDate 2025 11 5)"
  "\<not> isRestrictedMonth (utcDate 2025 10 5)"
  "\<not> isRestrictedMonth (utcDate 2025 9 5)"
  "\<not> isRestrictedMonth (utcDate 2025 9 20)"
  "\<not> isRestrictedMonth (utcDate 2025 10 20)"
  "\<not> isRestrictedMonth (utcDate 2025 11 20)"
  "\<not> isRestrictedMonth (utcDate 2025 12 20)"
  by (simp_all add: cal_eval)

lemma selfConsumption_order:
  "utcDate 2025 9 5 < utcDate 2025 9 20"
  "utcDate 2025 9 4 < utcDate 2025 9 20"
  by (simp_all add: cal_eval)

lemma selfConsumption_urbanEnd: "urbanEnd selfConsumptionProject = utcDate 2025 9 20"
  by (simp add: urbanEnd_def urbanDuration_def T0_def selfConsumption_config
      selfConsumption_months)

lemma selfConsumption_lock: "securityLockDate selfConsumptionProject = utcDate 2025 9 20"
  by (simp add: securityLockDate_def creEndDate_def leaseEndDate_def creRange_def
      leaseRange_def selfConsumption_urbanEnd selfConsumption_config)

lemma selfConsumption_connectionDuration: "connectionDurationUsed selfConsumptionProject = 5"
  by (simp add: connectionDurationUsed_def selfConsumption_config)

lemma selfConsumption_connectionEnd:
  "initialConnectionEnd selfConsumptionProject = utcDate 2026 2 20"
  by (simp add: initialConnectionEnd_def selfConsumption_lock
      selfConsumption_connectionDuration selfConsumption_months)

lemma selfConsumption_work: "workMonthsNeeded selfConsumptionProject = 4"
  by (simp add: workMonthsNeeded_def selfConsumption_config)

lemma selfConsumption_targetEnd:
  "targetConstructionEnd selfConsumptionProject = utcDate 2026 2 5"
  by (simp add: targetConstructionEnd_def selfConsumption_connectionEnd selfConsumption_days)

lemma selfConsumption_backwardWalk:
  "backwardWalk 4 (utcDate 2026 2 5, 0, 0) = (utcDate 2025 9 5, 4, 5)"
  by (simp add: backwardWalk_step backwardWalk_stop selfConsumption_months
      selfConsumption_restricted)

lemma selfConsumption_forwardWalk:
  "forwardWalk 4 (utcDate 2025 9 20, 0, 0) = (utcDate 2026 1 20, 4, 4)"
  by (simp add: forwardWalk_step forwardWalk_stop selfConsumption_months
      selfConsumption_restricted)

lemma selfConsumption_initialStart:
  "initialConstructionStart selfConsumptionProject = utcDate 2025 9 5"
  by (simp add: initialConstructionStart_def selfConsumption_work selfConsumption_targetEnd
      selfConsumption_backwardWalk selfConsumption_config)

lemma selfConsumption_actualEnd:
  "actualConstructionEnd selfConsumptionProject = utcDate 2026 1 20"
  by (simp add: actualConstructionEnd_def selfConsumption_work selfConsumption_lock
      selfConsumption_forwardWalk selfConsumption_config)

lemma selfConsumption_newConnectionEnd:
  "newConnectionEnd selfConsumptionProject = utcDate 2026 2 4"
  by (simp add: newConnectionEnd_def selfConsumption_actualEnd selfConsumption_days)

lemma selfConsumption_repair_needed:
  "\<not> skipConstruction (skippedPhases selfConsumptionProject)"
  "initialConstructionStart selfConsumptionProject < securityLockDate selfConsumptionProject"
  "\<not> skipConnection (skippedPhases selfConsumptionProject)"
  by (simp_all add: selfConsumption_config selfConsumption_initialStart selfConsumption_lock
      selfConsumption_order)

lemma selfConsumption_connection_start:
  "start (connection (calculateProjectTimeline selfConsumptionProject)) = utcDate 2025 9 4"
  by (simp add: result_connection stage_repair [OF selfConsumption_repair_needed]
      selfConsumption_newConnectionEnd selfConsumption_connectionDuration
      selfConsumption_months)

text \<open>
  Claim C3. The lock is the later of the tender end and the lease end, each replaced by the
  end of urbanism when its phase is absent, and the construction start of the result is
  never before it (\<open>securityLockDate_later_of\<close> and \<open>construction_start_not_before_lock\<close>
  above). The connection range, however, can start before the lock: the repair moves the
  connection end to the recomputed construction end plus 15 days, which may be earlier than
  the initial connection end, and then places the connection start one connection duration
  before it. On the self-consumption project the lock is 2025-09-20 and the connection of
  the result starts on 2025-09-04. The source comments call the lock the earliest possible
  start of connection and construction.
\<close>

theorem C3_connection_starts_before_lock:
  "securityLockDate selfConsumptionProject = utcDate 2025 9 20
   \<and> start (connection (calculateProjectTimeline selfConsumptionProject)) = utcDate 2025 9 4
   \<and> start (connection (calculateProjectTimeline selfConsumptionProject))
       < securityLockDate selfConsumptionProject"
  by (simp add: selfConsumption_lock selfConsumption_connection_start selfConsumption_order)

text \<open>
  The repair at work: the self-consumption project is placed on 2025-09-05, before its lock
  of 2025-09-20.
\<close>

theorem C1_constraint_repair_witness:
  "\<not> skipConstruction (skippedPhases selfConsumptionProject)
   \<and> initialConstructionStart selfConsumptionProject < securityLockDate selfConsumptionProject
   \<and> start (construction (calculateProjectTimeline selfConsumptionProject)) = utcDate 2025 9 20
   \<and> utcDate 2026 1 20 = specForwardEnd 4 (utcDate 2025 9 20)
   \<and> utcDate 2026 2 4 = utcDate 2026 1 20 + 15 * msPerDay
   \<and> end' (connection (calculateProjectTimeline selfConsumptionProject)) = utcDate 2026 2 4
   \<and> durationMonths (connection (calculateProjectTimeline selfConsumptionProject)) = 5"
proof -
  note n = selfConsumption_repair_needed
  note repair = C1_constraint_repair [OF n(1) n(2)]
  from repair have "start (construction (calculateProjectTimeline selfConsumptionProject)) =
      securityLockDate selfConsumptionProject" by (rule conjunct1)
  then have a: "start (construction (calculateProjectTimeline selfConsumptionProject)) =
      utcDate 2025 9 20" by (simp only: selfConsumption_lock)
  from repair have "actualConstructionEnd selfConsumptionProject =
        (if isSubcontracted selfConsumptionProject
         then addMonths (securityLockDate selfConsumptionProject)
                (workMonthsNeeded selfConsumptionProject)
         else specForwardEnd (workMonthsNeeded selfConsumptionProject)
                (securityLockDate selfConsumptionProject))" by blast
  then have b: "utcDate 2026 1 20 = specForwardEnd 4 (utcDate 2025 9 20)"
    by (simp add: selfConsumption_actualEnd selfConsumption_work selfConsumption_lock
        selfConsumption_fields)
  from repair have "newConnectionEnd selfConsumptionProject =
      actualConstructionEnd selfConsumptionProject + 15 * msPerDay" by blast
  then have c: "utcDate 2026 2 4 = utcDate 2026 1 20 + 15 * msPerDay"
    by (simp only: selfConsumption_newConnectionEnd selfConsumption_actualEnd)
  from repair n(3)
  have "end' (connection (calculateProjectTimeline selfConsumptionProject)) =
      newConnectionEnd selfConsumptionProject" by blast
  then have d: "end' (connection (calculateProjectTimeline selfConsumptionProject)) =
      utcDate 2026 2 4" by (simp only: selfConsumption_newConnectionEnd)
  from repair n(3)
  have "durationMonths (connection (calculateProjectTimeline selfConsumptionProject)) =
      connectionDurationUsed selfConsumptionProject" by blast
  then have e: "durationMonths (connection (calculateProjectTimeline selfConsumptionProject)) = 5"
    by (simp only: selfConsumption_connectionDuration)
  from n(1) n(2) a b c d e show ?thesis by blast
qed

section \<open>Milestones\<close>

text \<open>
  Claim C5, as the code has it. The signature milestone is always \<open>T0\<close>. The letter of
  intent and the negotiation range are present exactly when negotiation is not skipped, the
  urbanism milestone and range exactly when urbanism is not skipped. The tender milestone
  and range are present exactly when the tender is not skipped and the project is eligible
  (more than 100 kWc, total injection); the lease milestone and range exactly when the lease
  is not skipped and the investment model is own investment. The construction completion
  milestone is always present: it is the end of the construction range, which exists also
  when construction is skipped.
\<close>

theorem C5_milestones_by_phase:
  "signature (milestones (calculateProjectTimeline config)) = T0 config
   \<and> loi (milestones (calculateProjectTimeline config)) =
       (if skipNegotiation (skippedPhases config) then None else Some (T0 config))
   \<and> (negotiation (calculateProjectTimeline config) = None) =
       skipNegotiation (skippedPhases config)
   \<and> urbanismOk (milestones (calculateProjectTimeline config)) =
       (if skipUrbanism (skippedPhases config) then None else Some (urbanEnd config))
   \<and> (urbanism (calculateProjectTimeline config) = None) = skipUrbanism (skippedPhases config)
   \<and> (laureate (milestones (calculateProjectTimeline config)) \<noteq> None) =
       (\<not> skipAoCre (skippedPhases config) \<and> powerKWc config > 100
        \<and> injectionType config = TOTAL_INJECTION)
   \<and> (aoCre (calculateProjectTimeline config) \<noteq> None) =
       (\<not> skipAoCre (skippedPhases config) \<and> powerKWc config > 100
        \<and> injectionType config = TOTAL_INJECTION)
   \<and> (leaseSigned (milestones (calculateProjectTimeline config)) \<noteq> None) =
       (\<not> skipLeaseManagement (skippedPhases config)
        \<and> investmentModel config = OWN_INVESTMENT)
   \<and> (leaseManagement (calculateProjectTimeline config) \<noteq> None) =
       (\<not> skipLeaseManagement (skippedPhases config)
        \<and> investmentModel config = OWN_INVESTMENT)
   \<and> constructionCompletion (milestones (calculateProjectTimeline config)) =
       end' (construction (calculateProjectTimeline config))"
  by (simp add: calculateProjectTimeline_def Let_def split_beta negotiationRange_def
      urbanRange_def creRange_def leaseRange_def)

lemma small_fields:
  "powerKWc smallProject = 50"
  "skippedPhases smallProject = noSkips"
  by (simp_all add: smallProject_def reference_fields)

text \<open>
  A tender that is not skipped and yet leaves no range and no milestone: the reference
  project at 50 kWc.
\<close>

theorem C5_tender_milestone_counterexample:
  "\<not> skipAoCre (skippedPhases smallProject)
   \<and> aoCre (calculateProjectTimeline smallProject) = None
   \<and> laureate (milestones (calculateProjectTimeline smallProject)) = None"
  by (simp add: calculateProjectTimeline_def Let_def split_beta creRange_def small_fields
      noSkips_def)

section \<open>Adding and taking away the same number of months\<close>

text \<open>
  Claim C7, as the code has it. When adding \<open>n\<close> months does not roll over, that is, the
  day of the month is the same after the shift, taking the \<open>n\<close> months away again gives
  back the date itself, and with it its month and year.
\<close>

theorem C7_round_trip_without_rollover:
  assumes "getDate (addMonths d (of_int n)) = getDate d"
  shows "addMonths (addMonths d (of_int n)) (- of_int n) = d"
proof -
  define d' where "d' = addMonths d (of_int n)"
  have shift: "d' = setMonth d (of_int (MonthFromTime d + n))"
    by (simp add: d'_def addMonths_def getMonth_def)
  have date: "DateFromTime d' = DateFromTime d"
    using assms by (simp add: d'_def getDate_def)
  have "Day d' =
      firstDayOfMonth (12 * YearFromTime d + (MonthFromTime d + n)) + DateFromTime d - 1"
    unfolding shift by (simp only: Day_setMonth ToIntegerOrInfinity_of_int)
  moreover have "Day d' =
      firstDayOfMonth (12 * YearFromTime d' + MonthFromTime d') + DateFromTime d' - 1"
    by (rule Day_eq_firstDayOfMonth)
  ultimately have "firstDayOfMonth (12 * YearFromTime d' + MonthFromTime d') =
      firstDayOfMonth (12 * YearFromTime d + (MonthFromTime d + n))"
    using date by simp
  then have count: "12 * YearFromTime d' + MonthFromTime d' =
      12 * YearFromTime d + (MonthFromTime d + n)"
    by (rule firstDayOfMonth_inj)
  have reverse: "addMonths d' (- of_int n) = setMonth d' (of_int (MonthFromTime d' - n))"
    by (simp add: addMonths_def getMonth_def)
  have "addMonths d' (- of_int n) = d"
  proof (rule date_eqI)
    have "Day (addMonths d' (- of_int n)) =
        firstDayOfMonth (12 * YearFromTime d' + (MonthFromTime d' - n)) + DateFromTime d' - 1"
      unfolding reverse by (simp only: Day_setMonth ToIntegerOrInfinity_of_int)
    also have "12 * YearFromTime d' + (MonthFromTime d' - n) =
        12 * YearFromTime d + MonthFromTime d"
      using count by simp
    finally show "Day (addMonths d' (- of_int n)) = Day d"
      using date Day_eq_firstDayOfMonth [of d] by simp
    show "TimeWithinDay (addMonths d' (- of_int n)) = TimeWithinDay d"
      unfolding reverse by (simp add: TimeWithinDay_setMonth shift)
  qed
  then show ?thesis by (simp only: d'_def)
qed

lemma round_trip_dates:
  "getDate (utcDate 2025 3 1) = 1"
  "getDate (utcDate 2025 7 1) = 1"
  "addMonths (utcDate 2025 1 31) 1 = utcDate 2025 3 3"
  "addMonths (utcDate 2025 3 3) (- 1) = utcDate 2025 2 3"
  "getMonth (utcDate 2025 2 3) = 1"
  "getMonth (utcDate 2025 1 31) = 0"
  by (simp_all add: cal_eval)

text \<open>
  The round trip of 2025-03-01 over 4 months.
\<close>

theorem C7_round_trip_without_rollover_witness:
  "getDate (addMonths (utcDate 2025 3 1) 4) = getDate (utcDate 2025 3 1)
   \<and> addMonths (addMonths (utcDate 2025 3 1) 4) (- 4) = utcDate 2025 3 1"
proof -
  have h: "getDate (addMonths (utcDate 2025 3 1) (of_int 4)) = getDate (utcDate 2025 3 1)"
    by (simp add: reference_months_forward round_trip_dates)
  from C7_round_trip_without_rollover [OF h] h show ?thesis by simp
qed

text \<open>
  With a rollover the month is lost as well: 2025-01-31 plus one month is 2025-03-03, and
  one month earlier is 2025-02-03, in February and not in January.
\<close>

theorem C7_month_end_counterexample:
  "getMonth (addMonths (addMonths (utcDate 2025 1 31) (of_int 1)) (- of_int 1)) = 1
   \<and> getMonth (utcDate 2025 1 31) = 0"
  by (simp add: round_trip_dates)

section \<open>Termination and silent truncation of the walks\<close>

lemma withConstructionDuration_fields:
  "signatureDate (withConstructionDuration w config) = signatureDate config"
  "powerKWc (withConstructionDuration w config) = powerKWc config"
  "typology (withConstructionDuration w config) = typology config"
  "injectionType (withConstructionDuration w config) = injectionType config"
  "investmentModel (withConstructionDuration w config) = investmentModel config"
  "isSubcontracted (withConstructionDuration w config) = isSubcontracted config"
  "skippedPhases (withConstructionDuration w config) = skippedPhases config"
  "negotiationDuration (overrides (withConstructionDuration w config)) =
     negotiationDuration (overrides config)"
  "urbanismDuration (overrides (withConstructionDuration w config)) =
     urbanismDuration (overrides config)"
  "creDuration (overrides (withConstructionDuration w config)) = creDuration (overrides config)"
  "leaseDuration (overrides (withConstructionDuration w config)) =
     leaseDuration (overrides config)"
  "connectionDuration (overrides (withConstructionDuration w config)) =
     connectionDuration (overrides config)"
  "constructionDuration (overrides (withConstructionDuration w config)) = Some w"
  by (simp_all add: withConstructionDuration_def)

lemma withConstructionDuration_stages:
  "T0 (withConstructionDuration w config) = T0 config"
  "negotiationRange (withConstructionDuration w config) = negotiationRange config"
  "urbanDuration (withConstructionDuration w config) = urbanDuration config"
  "connectionDurationUsed (withConstructionDuration w config) = connectionDurationUsed config"
  "workMonthsNeeded (withConstructionDuration w config) = w"
  by (simp_all add: T0_def negotiationRange_def urbanDuration_def connectionDurationUsed_def
      workMonthsNeeded_def withConstructionDuration_fields cong: option.case_cong)

lemma withConstructionDuration_urbanEnd:
  "urbanEnd (withConstructionDuration w config) = urbanEnd config"
  by (simp add: urbanEnd_def withConstructionDuration_stages withConstructionDuration_fields)

lemma withConstructionDuration_ranges:
  "urbanRange (withConstructionDuration w config) = urbanRange config"
  "creRange (withConstructionDuration w config) = creRange config"
  "leaseRange (withConstructionDuration w config) = leaseRange config"
  by (simp_all add: urbanRange_def creRange_def leaseRange_def
      withConstructionDuration_urbanEnd withConstructionDuration_stages
      withConstructionDuration_fields cong: option.case_cong)

lemma withConstructionDuration_lock:
  "securityLockDate (withConstructionDuration w config) = securityLockDate config"
  by (simp add: securityLockDate_def creEndDate_def leaseEndDate_def
      withConstructionDuration_ranges withConstructionDuration_urbanEnd
      cong: option.case_cong)

lemma withConstructionDuration_connectionEnd:
  "initialConnectionEnd (withConstructionDuration w config) = initialConnectionEnd config"
  by (simp add: initialConnectionEnd_def withConstructionDuration_lock
      withConstructionDuration_stages)

lemma withConstructionDuration_target:
  "targetConstructionEnd (withConstructionDuration w config) = targetConstructionEnd config"
  by (simp add: targetConstructionEnd_def withConstructionDuration_connectionEnd)

lemma truncated_initialStart:
  assumes "36 < w" and "\<not> isSubcontracted config"
  shows "initialConstructionStart (withConstructionDuration w config) =
         backwardCursor (targetConstructionEnd config) 36"
  using assms
  by (simp add: initialConstructionStart_spec withConstructionDuration_fields
      withConstructionDuration_stages withConstructionDuration_target specBackwardStart_def
      backwardSteps_large)

lemma truncated_actualEnd:
  assumes "36 < w" and "\<not> isSubcontracted config"
  shows "actualConstructionEnd (withConstructionDuration w config) =
         forwardCursor (securityLockDate config) 36"
  using assms
  by (simp add: actualConstructionEnd_spec withConstructionDuration_fields
      withConstructionDuration_stages withConstructionDuration_lock specForwardEnd_def
      forwardSteps_large)

lemma truncated_stage:
  assumes "36 < w" and "36 < w'" and "\<not> isSubcontracted config"
  shows "constructionStage (withConstructionDuration w config) =
         constructionStage (withConstructionDuration w' config)"
  using assms
  by (simp add: constructionStage_def newConnectionEnd_def truncated_initialStart
      truncated_actualEnd withConstructionDuration_lock withConstructionDuration_connectionEnd
      withConstructionDuration_stages withConstructionDuration_fields
      cong: option.case_cong if_cong)

lemma truncated_result:
  assumes "36 < w" and "36 < w'" and "\<not> isSubcontracted config"
  shows "calculateProjectTimeline (withConstructionDuration w config) =
         calculateProjectTimeline (withConstructionDuration w' config)"
  using truncated_stage [OF assms]
  by (simp add: calculateProjectTimeline_def withConstructionDuration_stages
      withConstructionDuration_ranges withConstructionDuration_urbanEnd
      cong: option.case_cong)

text \<open>
  Claim C9. The engine is a total function: its only loops are the two walks, whose
  termination rests on the bound of 36 steps. Both walks leave after at most 36 steps; a
  walk that leaves with fewer valid months than needed has used all 36 steps; this is
  always so when more than 36 months are needed; and the results of the engine for two such
  needs are equal, so a result does not tell that a walk was cut short.
\<close>

theorem C9_walks_bounded_truncation_silent:
  "snd (snd (backwardWalk w (c, 0, 0))) \<le> 36
   \<and> snd (snd (forwardWalk w (c, 0, 0))) \<le> 36
   \<and> (of_int (fst (snd (backwardWalk w (c, 0, 0)))) < w \<longrightarrow>
        snd (snd (backwardWalk w (c, 0, 0))) = 36)
   \<and> (of_int (fst (snd (forwardWalk w (c, 0, 0)))) < w \<longrightarrow>
        snd (snd (forwardWalk w (c, 0, 0))) = 36)
   \<and> (36 < w \<longrightarrow>
        of_int (fst (snd (backwardWalk w (c, 0, 0)))) < w
        \<and> of_int (fst (snd (forwardWalk w (c, 0, 0)))) < w)
   \<and> (36 < w \<and> 36 < w' \<and> \<not> isSubcontracted config \<longrightarrow>
        calculateProjectTimeline (withConstructionDuration w config) =
        calculateProjectTimeline (withConstructionDuration w' config))"
proof (intro conjI impI)
  show "snd (snd (backwardWalk w (c, 0, 0))) \<le> 36"
    by (simp add: backwardWalk_spec backwardSteps_le)
  show "snd (snd (forwardWalk w (c, 0, 0))) \<le> 36"
    by (simp add: forwardWalk_spec forwardSteps_le)
next
  assume "of_int (fst (snd (backwardWalk w (c, 0, 0)))) < w"
  then have "of_int (backwardCount c (backwardSteps w c)) < w"
    by (simp add: backwardWalk_spec)
  then have "backwardSteps w c = 36" by (rule backwardSteps_cut_short)
  then show "snd (snd (backwardWalk w (c, 0, 0))) = 36"
    by (simp add: backwardWalk_spec)
next
  assume "of_int (fst (snd (forwardWalk w (c, 0, 0)))) < w"
  then have "of_int (forwardCount c (forwardSteps w c)) < w"
    by (simp add: forwardWalk_spec)
  then have "forwardSteps w c = 36" by (rule forwardSteps_cut_short)
  then show "snd (snd (forwardWalk w (c, 0, 0))) = 36"
    by (simp add: forwardWalk_spec)
next
  assume w: "36 < w"
  have "backwardCount c 36 \<le> 36" using backwardCount_le [of c 36] by simp
  then have "(of_int (backwardCount c 36) :: rat) \<le> of_int 36" by (simp only: of_int_le_iff)
  then show "of_int (fst (snd (backwardWalk w (c, 0, 0)))) < w"
    using w by (simp add: backwardWalk_spec backwardSteps_large)
  have "forwardCount c 36 \<le> 36" using forwardCount_le [of c 36] by simp
  then have "(of_int (forwardCount c 36) :: rat) \<le> of_int 36" by (simp only: of_int_le_iff)
  then show "of_int (fst (snd (forwardWalk w (c, 0, 0)))) < w"
    using w by (simp add: forwardWalk_spec forwardSteps_large)
next
  assume "36 < w \<and> 36 < w' \<and> \<not> isSubcontracted config"
  then show "calculateProjectTimeline (withConstructionDuration w config) =
        calculateProjectTimeline (withConstructionDuration w' config)"
    by (simp add: truncated_result)
qed

text \<open>
  Needs of 40 and 50 months on the reference project.
\<close>

theorem C9_walks_bounded_truncation_silent_witness:
  "(36 :: rat) < 40 \<and> (36 :: rat) < 50 \<and> \<not> isSubcontracted referenceProject
   \<and> snd (snd (backwardWalk 40 (utcDate 2026 7 17, 0, 0))) = 36
   \<and> snd (snd (forwardWalk 40 (utcDate 2026 7 17, 0, 0))) = 36
   \<and> calculateProjectTimeline (withConstructionDuration 40 referenceProject) =
      calculateProjectTimeline (withConstructionDuration 50 referenceProject)"
proof -
  have h: "(36 :: rat) < 40" "(36 :: rat) < 50" "\<not> isSubcontracted referenceProject"
    by (simp_all add: reference_fields)
  note t = C9_walks_bounded_truncation_silent
    [of 40 "utcDate 2026 7 17" 50 referenceProject]
  from t h(1) have short:
    "of_int (fst (snd (backwardWalk 40 (utcDate 2026 7 17, 0, 0)))) < (40 :: rat)"
    "of_int (fst (snd (forwardWalk 40 (utcDate 2026 7 17, 0, 0)))) < (40 :: rat)"
    by blast+
  from t short have a: "snd (snd (backwardWalk 40 (utcDate 2026 7 17, 0, 0))) = 36"
    and b: "snd (snd (forwardWalk 40 (utcDate 2026 7 17, 0, 0))) = 36" by blast+
  from t h have e: "calculateProjectTimeline (withConstructionDuration 40 referenceProject) =
      calculateProjectTimeline (withConstructionDuration 50 referenceProject)" by blast
  from h a b e show ?thesis by blast
qed

section \<open>Construction without a connection phase\<close>

















end
